theory Spec2Isabelle
  imports Main "HOL-Library.Product_Lexorder" "HOL-Library.Multiset"
begin

section \<open>The timetable generator of main.py\<close>

text \<open>
  A shallow embedding of \<^verbatim>\<open>generate_schedule\<close> (src/main.py, lines 57 to 220).
  Python's unbounded integers are \<^typ>\<open>int\<close>, its strings are \<^typ>\<open>string\<close>,
  dictionaries that are only looked up are maps, the occupancy sets are sets.
  An uncaught exception is a value \<open>Inl e\<close> of the result.
\<close>

subsection \<open>Data model\<close>

datatype error = KeyError

record GroupItem =
  g_name :: string
  g_size :: int

record RoomItem =
  r_name :: string
  r_capacity :: int

record Assignment =
  a_teacher :: string
  a_groups :: "string list"
  a_subject :: string
  a_count :: int
  a_type :: string

text \<open>The field \<^verbatim>\<open>times\<close> of the request is called \<open>times_list\<close> here.\<close>

record SessionData =
  teachers :: "string list"
  subjects :: "string list"
  groups :: "GroupItem list"
  rooms :: "RoomItem list"
  assignments :: "Assignment list"
  teacher_prefs :: "string \<rightharpoonup> string"
  teacher_busy :: "string \<rightharpoonup> string list"
  days :: "string list"
  times_list :: "string list"

text \<open>The value stored in \<^verbatim>\<open>slot_map\<close> for a slot name.\<close>

record SlotInfo =
  day :: string
  time_idx :: nat

text \<open>A task dictionary (lines 92 to 97 and 128 to 133).\<close>

record Task =
  t_teacher :: string
  t_groups :: "string list"
  t_subject :: string
  t_type :: string

text \<open>
  A schedule entry (lines 199 to 203). \<open>e_groups\<close> is the task's group list, from which
  the source renders the field \<^verbatim>\<open>group\<close> with \<^verbatim>\<open>", ".join\<close> (\<open>group_field\<close> below).
  The field \<^verbatim>\<open>time\<close>, a rendering of the slot name with the day removed, is left out:
  it is computed by total string operations and read nowhere.
\<close>

record Entry =
  e_slot :: string
  e_day :: string
  e_teacher :: string
  e_groups :: "string list"
  e_subject :: string
  e_room :: string
  e_type :: string

text \<open>
  The two values the variable \<^verbatim>\<open>reason\<close> takes: the initial one (line 175, "no common
  free time") and the one set after a slot without a fitting room (line 213, "no free room
  of the needed capacity"). The source holds them as Russian text.
\<close>

datatype reason = NoCommonFreeTime | NoRoomOfCapacity

text \<open>The parts of the diagnostic string of line 216, in the order it prints them.\<close>

record Diagnostic =
  m_subject :: string
  m_type :: string
  m_teacher :: string
  m_reason :: reason

text \<open>The message of the error response of line 69 (Russian text in the source).\<close>

datatype message = NoDaysOrTimes

record Response =
  status :: string
  message :: "message option"
  schedule :: "Entry list"
  errors :: "Diagnostic list"

text \<open>
  The mutable state of the placement loop: the three occupancy dictionaries, the per
  teacher and day sets of used time indices, and the two output lists. The occupancy
  dictionaries have exactly the slot names as keys and are read at slot names only, so
  they are total functions here; \<open>teacher_daily\<close> is read at names that may be absent.
\<close>

record SolverState =
  occ_teachers :: "string \<Rightarrow> string set"
  occ_groups :: "string \<Rightarrow> string set"
  occ_rooms :: "string \<Rightarrow> string set"
  teacher_daily :: "string \<rightharpoonup> (string \<rightharpoonup> nat set)"
  st_schedule :: "Entry list"
  st_errors :: "Diagnostic list"

subsection \<open>Sorting as Python does it\<close>

text \<open>
  \<^verbatim>\<open>list.sort\<close> and \<^verbatim>\<open>sorted\<close> are stable; \<^const>\<open>sort_key\<close> is the stable ascending
  sort. With \<^verbatim>\<open>reverse=True\<close> the list is reversed, sorted stably and reversed again,
  so that equal keys keep their original order.
\<close>

definition sort_reverse :: "('a \<Rightarrow> 'k::linorder) \<Rightarrow> 'a list \<Rightarrow> 'a list" where
  "sort_reverse f xs = rev (sort_key f (rev xs))"

text \<open>The keys of a sort are computed for all elements first; the first exception wins.\<close>

fun key_all :: "('a \<Rightarrow> error + 'k) \<Rightarrow> 'a list \<Rightarrow> error + 'k list" where
  "key_all f [] = Inr []"
| "key_all f (x # xs) =
     (case f x of
        Inl e \<Rightarrow> Inl e
      | Inr k \<Rightarrow> (case key_all f xs of Inl e \<Rightarrow> Inl e | Inr ks \<Rightarrow> Inr (k # ks)))"

definition sort_reverse_by :: "('a \<Rightarrow> error + 'k::linorder) \<Rightarrow> 'a list \<Rightarrow> error + 'a list" where
  "sort_reverse_by f xs =
     (case key_all f xs of
        Inl e \<Rightarrow> Inl e
      | Inr ks \<Rightarrow> Inr (map snd (sort_reverse fst (zip ks xs))))"

subsection \<open>Step 1: the slots (lines 58 to 69)\<close>

definition slot_name :: "string \<Rightarrow> string \<Rightarrow> string" where
  "slot_name d t = d @ '' '' @ t"

text \<open>The body of the inner loop (lines 64 to 66).\<close>

definition add_slot ::
  "string \<Rightarrow> nat \<times> string \<Rightarrow> string list \<times> (string \<rightharpoonup> SlotInfo)
     \<Rightarrow> string list \<times> (string \<rightharpoonup> SlotInfo)" where
  "add_slot d it acc =
     (case it of (t_idx, t) \<Rightarrow>
      case acc of (slots, slot_map) \<Rightarrow>
        (let s_name = slot_name d t in
         (slots @ [s_name], slot_map(s_name \<mapsto> \<lparr>day = d, time_idx = t_idx\<rparr>))))"

definition build_slots :: "string list \<Rightarrow> string list \<Rightarrow> string list \<times> (string \<rightharpoonup> SlotInfo)" where
  "build_slots ds ts =
     fold (\<lambda>d acc. fold (add_slot d) (enumerate 0 ts) acc) ds ([], Map.empty)"

definition slots :: "SessionData \<Rightarrow> string list" where
  "slots data = fst (build_slots (days data) (times_list data))"

definition slot_map :: "SessionData \<Rightarrow> string \<rightharpoonup> SlotInfo" where
  "slot_map data = snd (build_slots (days data) (times_list data))"

subsection \<open>The lookup tables (lines 72 to 80)\<close>

text \<open>A dictionary comprehension keeps the last value of a repeated key.\<close>

definition group_sizes :: "SessionData \<Rightarrow> string \<rightharpoonup> int" where
  "group_sizes data = map_of (rev (map (\<lambda>g. (g_name g, g_size g)) (groups data)))"

definition room_caps :: "SessionData \<Rightarrow> string \<rightharpoonup> int" where
  "room_caps data = map_of (rev (map (\<lambda>r. (r_name r, r_capacity r)) (rooms data)))"

definition room_names :: "SessionData \<Rightarrow> string list" where
  "room_names data = map r_name (rooms data)"

text \<open>\<^verbatim>\<open>group_sizes.get(g, 0)\<close>\<close>

definition group_size :: "SessionData \<Rightarrow> string \<Rightarrow> int" where
  "group_size data g = (case group_sizes data g of None \<Rightarrow> 0 | Some n \<Rightarrow> n)"

text \<open>\<^verbatim>\<open>room_caps.get(r, 9999)\<close>\<close>

definition room_cap :: "SessionData \<Rightarrow> string \<Rightarrow> int" where
  "room_cap data r = (case room_caps data r of None \<Rightarrow> 9999 | Some c \<Rightarrow> c)"

text \<open>
  Lines 77 to 80. The test for zero is inside the branch for a non-empty room list.
  \<^verbatim>\<open>max\<close> of the capacities is a fold of \<^const>\<open>max\<close> over a non-empty list.
\<close>

definition max_cap :: "SessionData \<Rightarrow> int" where
  "max_cap data =
     (case rooms data of
        [] \<Rightarrow> 0
      | r # rs \<Rightarrow>
          (let m = fold (\<lambda>r' acc. max acc (r_capacity r')) rs (r_capacity r)
           in if m = 0 then 9999 else m))"

subsection \<open>Step 2: the tasks (lines 82 to 136)\<close>

text \<open>One round of the loop of lines 106 to 121 over the sorted groups.\<close>

definition stream_step ::
  "SessionData \<Rightarrow> string \<Rightarrow> string list \<times> int \<times> string list list
     \<Rightarrow> string list \<times> int \<times> string list list" where
  "stream_step data g_name' acc =
     (case acc of (current_stream, current_size, streams) \<Rightarrow>
        (let g_size' = group_size data g_name' in
         if g_size' > max_cap data then (current_stream, current_size, streams @ [[g_name']])
         else if current_size + g_size' \<le> max_cap data
           then (current_stream @ [g_name'], current_size + g_size', streams)
           else ([g_name'], g_size',
                 if current_stream \<noteq> [] then streams @ [current_stream] else streams)))"

definition build_streams :: "SessionData \<Rightarrow> string list \<Rightarrow> string list list" where
  "build_streams data gs =
     (let sorted_groups = sort_reverse (group_size data) gs in
      case fold (stream_step data) sorted_groups ([], 0, []) of
        (current_stream, current_size, streams) \<Rightarrow>
          if current_stream \<noteq> [] then streams @ [current_stream] else streams)"

text \<open>\<^verbatim>\<open>for _ in range(count): tasks.append(t)\<close>\<close>

definition append_times :: "int \<Rightarrow> 'a \<Rightarrow> 'a list \<Rightarrow> 'a list" where
  "append_times n t tasks = fold (\<lambda>_ acc. acc @ [t]) [0..<nat n] tasks"

text \<open>The body of the loop over the assignments (lines 86 to 133).\<close>

definition expand_assignment :: "SessionData \<Rightarrow> Assignment \<Rightarrow> Task list \<Rightarrow> Task list" where
  "expand_assignment data assign tasks =
     (if a_type assign = ''seminar''
      then fold (\<lambda>group_name acc.
                   append_times (a_count assign)
                     \<lparr>t_teacher = a_teacher assign, t_groups = [group_name],
                      t_subject = a_subject assign, t_type = ''seminar''\<rparr> acc)
             (a_groups assign) tasks
      else fold (\<lambda>s acc.
                   append_times (a_count assign)
                     \<lparr>t_teacher = a_teacher assign, t_groups = s,
                      t_subject = a_subject assign, t_type = ''lecture''\<rparr> acc)
             (build_streams data (a_groups assign)) tasks)"

definition build_tasks :: "SessionData \<Rightarrow> Task list" where
  "build_tasks data = fold (expand_assignment data) (assignments data) []"

text \<open>\<^verbatim>\<open>sum(group_sizes.get(g, 0) for g in groups)\<close>\<close>

definition stud_count :: "SessionData \<Rightarrow> string list \<Rightarrow> int" where
  "stud_count data gs = sum_list (map (group_size data) gs)"

text \<open>The key of line 136; tuples compare lexicographically, \<open>False < True\<close>.\<close>

definition task_key :: "SessionData \<Rightarrow> Task \<Rightarrow> bool \<times> nat \<times> int" where
  "task_key data x = (t_type x = ''lecture'', length (t_groups x), stud_count data (t_groups x))"

definition sorted_tasks :: "SessionData \<Rightarrow> Task list" where
  "sorted_tasks data = sort_reverse (task_key data) (build_tasks data)"

subsection \<open>Step 3: the placement (lines 138 to 216)\<close>

definition init_state :: "SessionData \<Rightarrow> SolverState" where
  "init_state data =
     \<lparr>occ_teachers = (\<lambda>_. {}), occ_groups = (\<lambda>_. {}), occ_rooms = (\<lambda>_. {}),
      teacher_daily =
        (\<lambda>t. if t \<in> set (teachers data)
              then Some (\<lambda>d. if d \<in> set (days data) then Some {} else None)
              else None),
      st_schedule = [], st_errors = []\<rparr>"

text \<open>
  The function \<^verbatim>\<open>score\<close> of lines 154 to 161. Each of its three dictionary reads raises
  \<^verbatim>\<open>KeyError\<close> at an absent key.
\<close>

definition score :: "SessionData \<Rightarrow> SolverState \<Rightarrow> string \<Rightarrow> string \<Rightarrow> error + int" where
  "score data st t_name slot =
     (case slot_map data slot of
        None \<Rightarrow> Inl KeyError
      | Some info \<Rightarrow>
     (case teacher_daily st t_name of
        None \<Rightarrow> Inl KeyError
      | Some daily \<Rightarrow>
     (case daily (day info) of
        None \<Rightarrow> Inl KeyError
      | Some exist \<Rightarrow>
          if exist = {} then Inr 10
          else (let dist = Min ((\<lambda>e. \<bar>int (time_idx info) - int e\<bar>) ` exist) in
                if dist = 1 then Inr 100
                else if dist = 2 then Inr (- 50)
                else Inr 0))))"

text \<open>The filter of lines 164 to 169.\<close>

definition avail :: "SessionData \<Rightarrow> SolverState \<Rightarrow> Task \<Rightarrow> string list" where
  "avail data st task =
     filter (\<lambda>slot.
        \<not> (t_teacher task \<in> occ_teachers st slot)
        \<and> \<not> (\<exists>g \<in> set (t_groups task). g \<in> occ_groups st slot)
        \<and> \<not> (case teacher_busy data (t_teacher task) of
                None \<Rightarrow> False
              | Some busy \<Rightarrow> slot \<in> set busy))
       (slots data)"

text \<open>\<^verbatim>\<open>fits\<close> of line 179: \<^verbatim>\<open>(room_caps.get(r, 9999) or 9999) >= stud_count\<close>\<close>

definition fits :: "SessionData \<Rightarrow> int \<Rightarrow> string \<Rightarrow> bool" where
  "fits data n r = ((if room_cap data r = 0 then 9999 else room_cap data r) \<ge> n)"

text \<open>
  The truth value Python gives to \<^verbatim>\<open>target\<close>, which is \<^verbatim>\<open>None\<close> or a string: only a
  non-empty string is true.
\<close>

definition truthy :: "string option \<Rightarrow> bool" where
  "truthy target = (case target of None \<Rightarrow> False | Some r \<Rightarrow> r \<noteq> [])"

text \<open>Lines 178 to 193: the value of \<^verbatim>\<open>target\<close> when line 195 tests it.\<close>

definition pick_room :: "SessionData \<Rightarrow> SolverState \<Rightarrow> Task \<Rightarrow> string \<Rightarrow> string option" where
  "pick_room data st task slot =
     (let n = stud_count data (t_groups task);
          target =
            (if t_type task \<noteq> ''lecture''
             then (case teacher_prefs data (t_teacher task) of
                     None \<Rightarrow> None
                   | Some pref \<Rightarrow>
                       if pref \<notin> occ_rooms st slot \<and> fits data n pref then Some pref else None)
             else None)
      in if \<not> truthy target
         then (let free = filter (\<lambda>r. r \<notin> occ_rooms st slot) (room_names data);
                   free' = sort_key (room_cap data) free
               in case find (fits data n) free' of
                    Some r \<Rightarrow> Some r
                  | None \<Rightarrow> target)
         else target)"

text \<open>Lines 196 to 209: the entry is appended and the resources are blocked.\<close>

definition commit :: "SessionData \<Rightarrow> SolverState \<Rightarrow> Task \<Rightarrow> string \<Rightarrow> string \<Rightarrow> error + SolverState" where
  "commit data st task slot target =
     (case slot_map data slot of
        None \<Rightarrow> Inl KeyError
      | Some info \<Rightarrow>
     (case teacher_daily st (t_teacher task) of
        None \<Rightarrow> Inl KeyError
      | Some daily \<Rightarrow>
     (case daily (day info) of
        None \<Rightarrow> Inl KeyError
      | Some exist \<Rightarrow>
          Inr \<lparr>occ_teachers = (occ_teachers st)(slot := insert (t_teacher task) (occ_teachers st slot)),
               occ_groups = (occ_groups st)(slot := occ_groups st slot \<union> set (t_groups task)),
               occ_rooms = (occ_rooms st)(slot := insert target (occ_rooms st slot)),
               teacher_daily =
                 (teacher_daily st)(t_teacher task \<mapsto> daily(day info \<mapsto> insert (time_idx info) exist)),
               st_schedule = st_schedule st @
                 [\<lparr>e_slot = slot, e_day = day info, e_teacher = t_teacher task,
                   e_groups = t_groups task, e_subject = t_subject task,
                   e_room = target, e_type = t_type task\<rparr>],
               st_errors = st_errors st\<rparr>)))"

text \<open>
  The loop of lines 177 to 213 over the sorted candidate slots. The result is the
  state, the flag \<^verbatim>\<open>placed\<close> and the variable \<^verbatim>\<open>reason\<close> after the loop.
\<close>

fun try_slots ::
  "SessionData \<Rightarrow> SolverState \<Rightarrow> Task \<Rightarrow> reason \<Rightarrow> string list
     \<Rightarrow> error + (SolverState \<times> bool \<times> reason)" where
  "try_slots data st task rsn [] = Inr (st, False, rsn)"
| "try_slots data st task rsn (slot # rest) =
     (case pick_room data st task slot of
        Some target \<Rightarrow>
          if target \<noteq> []
          then (case commit data st task slot target of
                  Inl e \<Rightarrow> Inl e
                | Inr st' \<Rightarrow> Inr (st', True, rsn))
          else try_slots data st task NoRoomOfCapacity rest
      | None \<Rightarrow> try_slots data st task NoRoomOfCapacity rest)"

text \<open>The body of the loop over the tasks (lines 149 to 216).\<close>

definition place_task :: "SessionData \<Rightarrow> SolverState \<Rightarrow> Task \<Rightarrow> error + SolverState" where
  "place_task data st task =
     (case sort_reverse_by (score data st (t_teacher task)) (avail data st task) of
        Inl e \<Rightarrow> Inl e
      | Inr avail' \<Rightarrow>
     (case try_slots data st task NoCommonFreeTime avail' of
        Inl e \<Rightarrow> Inl e
      | Inr (st', placed, rsn) \<Rightarrow>
          if \<not> placed
          then Inr (st'\<lparr>st_errors := st_errors st' @
                    [\<lparr>m_subject = t_subject task, m_type = t_type task,
                      m_teacher = t_teacher task, m_reason = rsn\<rparr>]\<rparr>)
          else Inr st'))"

fun place_all :: "SessionData \<Rightarrow> SolverState \<Rightarrow> Task list \<Rightarrow> error + SolverState" where
  "place_all data st [] = Inr st"
| "place_all data st (task # rest) =
     (case place_task data st task of
        Inl e \<Rightarrow> Inl e
      | Inr st' \<Rightarrow> place_all data st' rest)"

subsection \<open>The result (lines 218 to 220)\<close>

text \<open>
  \<^verbatim>\<open>slots.index(x)\<close>: the first position of \<open>x\<close>. Every slot of an entry is an element
  of the slot list (lemma \<open>place_all_slots\<close> below), so the \<^verbatim>\<open>ValueError\<close> of an absent
  element cannot occur; the function gives the length of the list there.
\<close>

fun index_of :: "'a list \<Rightarrow> 'a \<Rightarrow> nat" where
  "index_of [] x = 0"
| "index_of (y # ys) x = (if x = y then 0 else Suc (index_of ys x))"

definition generate_schedule :: "SessionData \<Rightarrow> error + Response" where
  "generate_schedule data =
     (if slots data = []
      then Inr \<lparr>status = ''error'', message = Some NoDaysOrTimes, schedule = [], errors = []\<rparr>
      else (case place_all data (init_state data) (sorted_tasks data) of
              Inl e \<Rightarrow> Inl e
            | Inr st \<Rightarrow>
                Inr \<lparr>status = ''success'', message = None,
                     schedule = sort_key (\<lambda>x. index_of (slots data) (e_slot x)) (st_schedule st),
                     errors = st_errors st\<rparr>))"

text \<open>The field \<^verbatim>\<open>group\<close> of an entry as the response shows it.\<close>

fun join_names :: "string list \<Rightarrow> string" where
  "join_names [] = []"
| "join_names [g] = g"
| "join_names (g # gs) = g @ '', '' @ join_names gs"

definition group_field :: "Entry \<Rightarrow> string" where
  "group_field x = join_names (e_groups x)"

section \<open>Definitions for the statements and the proofs\<close>

subsection \<open>The parts of the code that the statements name\<close>



text \<open>
  The time indices that the entries of a schedule use for a teacher on a day, read off
  the entries through the slot map.
\<close>

definition used_indices :: "SessionData \<Rightarrow> Entry list \<Rightarrow> string \<Rightarrow> string \<Rightarrow> nat set" where
  "used_indices data sched t d =
     set (concat (map (\<lambda>e. case slot_map data (e_slot e) of
                              None \<Rightarrow> []
                            | Some info \<Rightarrow>
                                if e_teacher e = t \<and> day info = d then [time_idx info] else [])
                      sched))"

subsection \<open>The specification in its own words\<close>

text \<open>
  The scoring rule of section 4.4, step 2, of the specification: \<open>min_distance_is used i k\<close>
  says that \<open>k\<close> is the least distance from index \<open>i\<close> to a used index.
\<close>

definition min_distance_is :: "nat set \<Rightarrow> nat \<Rightarrow> int \<Rightarrow> bool" where
  "min_distance_is used i k =
     ((\<exists>e\<in>used. \<bar>int i - int e\<bar> = k) \<and> (\<forall>e\<in>used. k \<le> \<bar>int i - int e\<bar>))"

definition gap_score :: "nat set \<Rightarrow> nat \<Rightarrow> int" where
  "gap_score used i =
     (if used = {} then 10
      else if min_distance_is used i 1 then 100
      else if min_distance_is used i 2 then - 50
      else 0)"

text \<open>
  The walk of section 4.2 of the specification, steps 2 to 5, written from its words: a
  running stream and its total, over a list of groups that is sorted already.
\<close>

fun first_fit :: "(string \<Rightarrow> int) \<Rightarrow> int \<Rightarrow> string list \<Rightarrow> int \<Rightarrow> string list \<Rightarrow> string list list" where
  "first_fit size_of cap running running_total [] = (if running \<noteq> [] then [running] else [])"
| "first_fit size_of cap running running_total (g # gs) =
     (if size_of g > cap then [g] # first_fit size_of cap running running_total gs
      else if running_total + size_of g \<le> cap
        then first_fit size_of cap (running @ [g]) (running_total + size_of g) gs
        else running # first_fit size_of cap [g] (size_of g) gs)"

definition spec_seminar_tasks :: "Assignment \<Rightarrow> Task list" where
  "spec_seminar_tasks a =
     concat (map (\<lambda>g. replicate (nat (a_count a))
                     \<lparr>t_teacher = a_teacher a, t_groups = [g],
                      t_subject = a_subject a, t_type = ''seminar''\<rparr>)
               (a_groups a))"

subsection \<open>Invariants of the loops\<close>

text \<open>Every slot of the list has its record in the map, with a day of the set \<open>D\<close>.\<close>

definition slots_wf :: "string set \<Rightarrow> string list \<times> (string \<rightharpoonup> SlotInfo) \<Rightarrow> bool" where
  "slots_wf D p = (\<forall>s\<in>set (fst p). \<exists>info. snd p s = Some info \<and> day info \<in> D)"

text \<open>Two entries do not book one resource twice.\<close>

definition no_clash :: "Entry \<Rightarrow> Entry \<Rightarrow> bool" where
  "no_clash a b =
     (e_slot a = e_slot b \<longrightarrow>
        e_teacher a \<noteq> e_teacher b \<and> set (e_groups a) \<inter> set (e_groups b) = {}
        \<and> e_room a \<noteq> e_room b)"

text \<open>
  The occupancy sets hold every resource of every entry of the schedule so far, and the
  schedule so far has no clash.
\<close>

definition inv_occ :: "SessionData \<Rightarrow> SolverState \<Rightarrow> bool" where
  "inv_occ data st =
     ((\<forall>e\<in>set (st_schedule st).
         e_slot e \<in> set (slots data)
         \<and> e_teacher e \<in> occ_teachers st (e_slot e)
         \<and> set (e_groups e) \<subseteq> occ_groups st (e_slot e)
         \<and> e_room e \<in> occ_rooms st (e_slot e))
      \<and> sorted_wrt no_clash (st_schedule st))"

text \<open>Every room of the schedule so far has a name and passed the test \<open>fits\<close>.\<close>

definition inv_cap :: "SessionData \<Rightarrow> SolverState \<Rightarrow> bool" where
  "inv_cap data st =
     (\<forall>e\<in>set (st_schedule st). e_room e \<noteq> [] \<and> fits data (stud_count data (e_groups e)) (e_room e))"

text \<open>
  \<open>teacher_daily\<close> has the listed teachers as its keys, and for each of them a finite
  set for every configured day.
\<close>

definition inv_td :: "SessionData \<Rightarrow> SolverState \<Rightarrow> bool" where
  "inv_td data st =
     (dom (teacher_daily st) = set (teachers data)
      \<and> (\<forall>t daily. teacher_daily st t = Some daily \<longrightarrow>
             (\<forall>d\<in>set (days data). \<exists>exist. daily d = Some exist \<and> finite exist)))"

text \<open>The sets of \<open>teacher_daily\<close> are the used indices of the schedule so far.\<close>

definition inv_daily :: "SessionData \<Rightarrow> SolverState \<Rightarrow> bool" where
  "inv_daily data st =
     (\<forall>t daily d exist. teacher_daily st t = Some daily \<longrightarrow> daily d = Some exist \<longrightarrow>
        exist = used_indices data (st_schedule st) t d)"

text \<open>No entry of the schedule so far is in the busy list of its teacher.\<close>

definition inv_busy :: "SessionData \<Rightarrow> SolverState \<Rightarrow> bool" where
  "inv_busy data st =
     (\<forall>e\<in>set (st_schedule st). \<forall>busy. teacher_busy data (e_teacher e) = Some busy \<longrightarrow>
        e_slot e \<notin> set busy)"

subsection \<open>Concrete requests\<close>

text \<open>Two teachers, two groups and two rooms on a grid of one slot.\<close>

definition two_teachers :: SessionData where
  "two_teachers =
     \<lparr>teachers = [''T1'', ''T2''], subjects = [],
      groups = [\<lparr>g_name = ''G1'', g_size = 5\<rparr>, \<lparr>g_name = ''G2'', g_size = 8\<rparr>],
      rooms = [\<lparr>r_name = ''R1'', r_capacity = 10\<rparr>, \<lparr>r_name = ''R2'', r_capacity = 6\<rparr>],
      assignments =
        [\<lparr>a_teacher = ''T1'', a_groups = [''G1''], a_subject = ''S'', a_count = 1, a_type = ''seminar''\<rparr>,
         \<lparr>a_teacher = ''T2'', a_groups = [''G2''], a_subject = ''S'', a_count = 1, a_type = ''seminar''\<rparr>],
      teacher_prefs = Map.empty, teacher_busy = Map.empty,
      days = [''Mon''], times_list = [''9'']\<rparr>"

definition two_teachers_response :: Response where
  "two_teachers_response =
     \<lparr>status = ''success'', message = None,
      schedule =
        [\<lparr>e_slot = ''Mon 9'', e_day = ''Mon'', e_teacher = ''T2'', e_groups = [''G2''],
          e_subject = ''S'', e_room = ''R1'', e_type = ''seminar''\<rparr>,
         \<lparr>e_slot = ''Mon 9'', e_day = ''Mon'', e_teacher = ''T1'', e_groups = [''G1''],
          e_subject = ''S'', e_room = ''R2'', e_type = ''seminar''\<rparr>],
      errors = []\<rparr>"

text \<open>
  One teacher, one slot and one room of capacity 5: the lecture of 10 students finds no
  room, the first seminar is placed, the second finds the teacher occupied.
\<close>

definition three_tasks :: SessionData where
  "three_tasks =
     \<lparr>teachers = [''T''], subjects = [],
      groups = [\<lparr>g_name = ''G1'', g_size = 3\<rparr>, \<lparr>g_name = ''G2'', g_size = 10\<rparr>],
      rooms = [\<lparr>r_name = ''R'', r_capacity = 5\<rparr>],
      assignments =
        [\<lparr>a_teacher = ''T'', a_groups = [''G1''], a_subject = ''S'', a_count = 2, a_type = ''seminar''\<rparr>,
         \<lparr>a_teacher = ''T'', a_groups = [''G2''], a_subject = ''L'', a_count = 1, a_type = ''lecture''\<rparr>],
      teacher_prefs = Map.empty, teacher_busy = Map.empty,
      days = [''Mon''], times_list = [''9'']\<rparr>"

definition three_tasks_response :: Response where
  "three_tasks_response =
     \<lparr>status = ''success'', message = None,
      schedule =
        [\<lparr>e_slot = ''Mon 9'', e_day = ''Mon'', e_teacher = ''T'', e_groups = [''G1''],
          e_subject = ''S'', e_room = ''R'', e_type = ''seminar''\<rparr>],
      errors =
        [\<lparr>m_subject = ''L'', m_type = ''lecture'', m_teacher = ''T'', m_reason = NoRoomOfCapacity\<rparr>,
         \<lparr>m_subject = ''S'', m_type = ''seminar'', m_teacher = ''T'', m_reason = NoCommonFreeTime\<rparr>]\<rparr>"

definition lecture_task :: Task where
  "lecture_task = \<lparr>t_teacher = ''T'', t_groups = [''G2''], t_subject = ''L'', t_type = ''lecture''\<rparr>"

definition seminar_task :: Task where
  "seminar_task = \<lparr>t_teacher = ''T'', t_groups = [''G1''], t_subject = ''S'', t_type = ''seminar''\<rparr>"

definition no_days :: SessionData where
  "no_days = three_tasks\<lparr>days := []\<rparr>"

text \<open>
  An assignment for a teacher who is not in the list of teachers; in the second request
  the busy list of that teacher holds the only slot.
\<close>

definition unknown_teacher :: SessionData where
  "unknown_teacher =
     \<lparr>teachers = [], subjects = [],
      groups = [\<lparr>g_name = ''G1'', g_size = 3\<rparr>],
      rooms = [\<lparr>r_name = ''R'', r_capacity = 5\<rparr>],
      assignments =
        [\<lparr>a_teacher = ''T'', a_groups = [''G1''], a_subject = ''S'', a_count = 1, a_type = ''seminar''\<rparr>],
      teacher_prefs = Map.empty, teacher_busy = Map.empty,
      days = [''Mon''], times_list = [''9'']\<rparr>"

definition unknown_task :: Task where
  "unknown_task = \<lparr>t_teacher = ''T'', t_groups = [''G1''], t_subject = ''S'', t_type = ''seminar''\<rparr>"

definition busy_unknown_teacher :: SessionData where
  "busy_unknown_teacher = unknown_teacher\<lparr>teacher_busy := [''T'' \<mapsto> [''Mon 9'']]\<rparr>"

definition busy_unknown_response :: Response where
  "busy_unknown_response =
     \<lparr>status = ''success'', message = None, schedule = [],
      errors =
        [\<lparr>m_subject = ''S'', m_type = ''seminar'', m_teacher = ''T'', m_reason = NoCommonFreeTime\<rparr>]\<rparr>"

text \<open>A lecture for two groups of 5 with no room, and with one room of capacity zero.\<close>

definition no_rooms :: SessionData where
  "no_rooms =
     \<lparr>teachers = [''T''], subjects = [],
      groups = [\<lparr>g_name = ''G1'', g_size = 5\<rparr>, \<lparr>g_name = ''G2'', g_size = 5\<rparr>],
      rooms = [],
      assignments =
        [\<lparr>a_teacher = ''T'', a_groups = [''G1'', ''G2''], a_subject = ''L'', a_count = 1, a_type = ''lecture''\<rparr>],
      teacher_prefs = Map.empty, teacher_busy = Map.empty,
      days = [''Mon''], times_list = [''9'']\<rparr>"

definition zero_room :: SessionData where
  "zero_room = no_rooms\<lparr>rooms := [\<lparr>r_name = ''R'', r_capacity = 0\<rparr>]\<rparr>"

text \<open>Two days of four times; the state after the first of two seminars is placed.\<close>

definition four_times :: SessionData where
  "four_times =
     \<lparr>teachers = [''T''], subjects = [],
      groups = [\<lparr>g_name = ''G1'', g_size = 5\<rparr>],
      rooms = [\<lparr>r_name = ''R'', r_capacity = 10\<rparr>],
      assignments =
        [\<lparr>a_teacher = ''T'', a_groups = [''G1''], a_subject = ''S'', a_count = 2, a_type = ''seminar''\<rparr>],
      teacher_prefs = Map.empty, teacher_busy = Map.empty,
      days = [''Mon'', ''Tue''], times_list = [''9'', ''10'', ''11'', ''12'']\<rparr>"

definition four_times_task :: Task where
  "four_times_task = \<lparr>t_teacher = ''T'', t_groups = [''G1''], t_subject = ''S'', t_type = ''seminar''\<rparr>"

definition four_times_state :: SolverState where
  "four_times_state = projr (place_all four_times (init_state four_times) [four_times_task])"








text \<open>A room whose name is the empty string, and a larger room.\<close>

definition empty_room_name :: SessionData where
  "empty_room_name =
     \<lparr>teachers = [''T''], subjects = [],
      groups = [\<lparr>g_name = ''G1'', g_size = 5\<rparr>],
      rooms = [\<lparr>r_name = [], r_capacity = 10\<rparr>, \<lparr>r_name = ''B'', r_capacity = 20\<rparr>],
      assignments =
        [\<lparr>a_teacher = ''T'', a_groups = [''G1''], a_subject = ''L'', a_count = 1, a_type = ''lecture''\<rparr>],
      teacher_prefs = Map.empty, teacher_busy = Map.empty,
      days = [''Mon''], times_list = [''9'']\<rparr>"

text \<open>A teacher whose busy list holds the first of two slots.\<close>

definition busy_teacher :: SessionData where
  "busy_teacher =
     \<lparr>teachers = [''T''], subjects = [],
      groups = [\<lparr>g_name = ''G1'', g_size = 5\<rparr>],
      rooms = [\<lparr>r_name = ''R'', r_capacity = 10\<rparr>],
      assignments =
        [\<lparr>a_teacher = ''T'', a_groups = [''G1''], a_subject = ''S'', a_count = 1, a_type = ''seminar''\<rparr>],
      teacher_prefs = Map.empty, teacher_busy = [''T'' \<mapsto> [''Mon 9'']],
      days = [''Mon''], times_list = [''9'', ''10'']\<rparr>"

definition busy_teacher_response :: Response where
  "busy_teacher_response =
     \<lparr>status = ''success'', message = None,
      schedule =
        [\<lparr>e_slot = ''Mon 10'', e_day = ''Mon'', e_teacher = ''T'', e_groups = [''G1''],
          e_subject = ''S'', e_room = ''R'', e_type = ''seminar''\<rparr>],
      errors = []\<rparr>"

subsection \<open>The tables of the specification\<close>

text \<open>
  The size of a group and the capacity of a room, looked up by name in the lists of the
  request: of two records with one name the later one counts, a group that is not listed
  has size 0, and a room that is not listed has no capacity.
\<close>

fun lookup_last :: "(string \<times> int) list \<Rightarrow> string \<Rightarrow> int option" where
  "lookup_last [] k = None"
| "lookup_last ((k', v) # rest) k =
     (case lookup_last rest k of
        Some v' \<Rightarrow> Some v'
      | None \<Rightarrow> if k' = k then Some v else None)"

definition spec_size :: "SessionData \<Rightarrow> string \<Rightarrow> int" where
  "spec_size data g =
     (case lookup_last (map (\<lambda>x. (g_name x, g_size x)) (groups data)) g of
        None \<Rightarrow> 0
      | Some n \<Rightarrow> n)"


text \<open>
  The total enrollment of a task is the sum of the sizes of its groups.
\<close>

definition spec_enrollment :: "SessionData \<Rightarrow> string list \<Rightarrow> int" where
  "spec_enrollment data gs = sum_list (map (spec_size data) gs)"


text \<open>
  The bound of the stream packer, section 4.2 of the specification: the largest capacity
  of the rooms, and no bound (\<open>None\<close>) when there is no room or the largest capacity is
  zero.
\<close>

definition spec_bound :: "SessionData \<Rightarrow> int option" where
  "spec_bound data =
     (if rooms data = [] then None
      else if Max (r_capacity ` set (rooms data)) = 0 then None
      else Some (Max (r_capacity ` set (rooms data))))"

subsection \<open>The task expansion of the specification\<close>

text \<open>
  A sort by descending size that keeps the input order of equal sizes: each element is
  inserted before the first element that is not larger.
\<close>

fun insert_desc :: "('a \<Rightarrow> int) \<Rightarrow> 'a \<Rightarrow> 'a list \<Rightarrow> 'a list" where
  "insert_desc f x [] = [x]"
| "insert_desc f x (y # ys) = (if f y \<le> f x then x # y # ys else y # insert_desc f x ys)"

fun spec_sort_desc :: "('a \<Rightarrow> int) \<Rightarrow> 'a list \<Rightarrow> 'a list" where
  "spec_sort_desc f [] = []"
| "spec_sort_desc f (x # xs) = insert_desc f x (spec_sort_desc f xs)"

text \<open>
  The walk of section 4.2, steps 2 to 5, under a bound that may be absent: with no bound
  every size is within it.
\<close>

definition spec_within :: "int option \<Rightarrow> int \<Rightarrow> bool" where
  "spec_within bound n = (case bound of None \<Rightarrow> True | Some b \<Rightarrow> n \<le> b)"

fun spec_walk :: "(string \<Rightarrow> int) \<Rightarrow> int option \<Rightarrow> string list \<Rightarrow> int \<Rightarrow> string list \<Rightarrow> string list list" where
  "spec_walk size_of bound running running_total [] = (if running \<noteq> [] then [running] else [])"
| "spec_walk size_of bound running running_total (g # gs) =
     (if \<not> spec_within bound (size_of g)
        then [g] # spec_walk size_of bound running running_total gs
      else if spec_within bound (running_total + size_of g)
        then spec_walk size_of bound (running @ [g]) (running_total + size_of g) gs
        else running # spec_walk size_of bound [g] (size_of g) gs)"

text \<open>
  The streams of a lecture assignment, the tasks of one assignment and of all of them, for
  a given bound; \<open>spec_tasks\<close> takes the bound of the specification.
\<close>

definition spec_streams :: "SessionData \<Rightarrow> int option \<Rightarrow> string list \<Rightarrow> string list list" where
  "spec_streams data bound gs =
     spec_walk (spec_size data) bound [] 0 (spec_sort_desc (spec_size data) gs)"

definition spec_lecture_tasks :: "SessionData \<Rightarrow> int option \<Rightarrow> Assignment \<Rightarrow> Task list" where
  "spec_lecture_tasks data bound a =
     concat (map (\<lambda>s. replicate (nat (a_count a))
                     \<lparr>t_teacher = a_teacher a, t_groups = s,
                      t_subject = a_subject a, t_type = ''lecture''\<rparr>)
               (spec_streams data bound (a_groups a)))"

definition spec_tasks_of :: "SessionData \<Rightarrow> int option \<Rightarrow> Assignment \<Rightarrow> Task list" where
  "spec_tasks_of data bound a =
     (if a_type a = ''seminar'' then spec_seminar_tasks a
      else if a_type a = ''lecture'' then spec_lecture_tasks data bound a
      else [])"

definition spec_tasks_with :: "SessionData \<Rightarrow> int option \<Rightarrow> Task list" where
  "spec_tasks_with data bound = concat (map (spec_tasks_of data bound) (assignments data))"

definition spec_tasks :: "SessionData \<Rightarrow> Task list" where
  "spec_tasks data = spec_tasks_with data (spec_bound data)"

subsection \<open>The task order and the slot score of the specification\<close>

text \<open>
  Section 4.3: a task stands before another when it is a lecture and the other is not, or
  both are of one kind and it has more groups, or as many groups and an enrollment that
  is not smaller. Two tasks have the same key when the three components agree.
\<close>

definition spec_precedes :: "SessionData \<Rightarrow> Task \<Rightarrow> Task \<Rightarrow> bool" where
  "spec_precedes data a b =
     ((t_type a = ''lecture'' \<and> t_type b \<noteq> ''lecture'')
      \<or> ((t_type a = ''lecture'') = (t_type b = ''lecture'')
          \<and> (length (t_groups b) < length (t_groups a)
              \<or> (length (t_groups a) = length (t_groups b)
                  \<and> spec_enrollment data (t_groups b) \<le> spec_enrollment data (t_groups a)))))"

definition spec_same_key :: "SessionData \<Rightarrow> Task \<Rightarrow> Task \<Rightarrow> bool" where
  "spec_same_key data a b =
     ((t_type a = ''lecture'') = (t_type b = ''lecture'')
      \<and> length (t_groups a) = length (t_groups b)
      \<and> spec_enrollment data (t_groups a) = spec_enrollment data (t_groups b))"

text \<open>
  The score of a slot for a teacher, from the entries of a schedule: the scoring rule
  \<open>gap_score\<close> at the time index of the slot, over the indices used on its day.
\<close>

definition slot_score :: "SessionData \<Rightarrow> Entry list \<Rightarrow> string \<Rightarrow> string \<Rightarrow> int" where
  "slot_score data sched t slot =
     (case slot_map data slot of
        None \<Rightarrow> 0
      | Some info \<Rightarrow> gap_score (used_indices data sched t (day info)) (time_idx info))"

subsection \<open>Further concrete requests\<close>

text \<open>
  One room of capacity zero and two lecture groups of 6000 students each.
\<close>

definition zero_room_large :: SessionData where
  "zero_room_large =
     \<lparr>teachers = [''T''], subjects = [],
      groups = [\<lparr>g_name = ''G1'', g_size = 6000\<rparr>, \<lparr>g_name = ''G2'', g_size = 6000\<rparr>],
      rooms = [\<lparr>r_name = ''Z'', r_capacity = 0\<rparr>],
      assignments =
        [\<lparr>a_teacher = ''T'', a_groups = [''G1'', ''G2''], a_subject = ''L'', a_count = 1, a_type = ''lecture''\<rparr>],
      teacher_prefs = Map.empty, teacher_busy = Map.empty,
      days = [''Mon''], times_list = [''9'']\<rparr>"

text \<open>
  Four groups of sizes 4, 7, 6 and 2, one room of capacity 13, two lecture and two seminar
  assignments; the expanded tasks in their order of creation, and in their sorted order.
\<close>

definition order_example :: SessionData where
  "order_example =
     \<lparr>teachers = [''T'', ''T2''], subjects = [],
      groups = [\<lparr>g_name = ''A'', g_size = 4\<rparr>, \<lparr>g_name = ''B'', g_size = 7\<rparr>,
                \<lparr>g_name = ''C'', g_size = 6\<rparr>, \<lparr>g_name = ''D'', g_size = 2\<rparr>],
      rooms = [\<lparr>r_name = ''R'', r_capacity = 13\<rparr>],
      assignments =
        [\<lparr>a_teacher = ''T'', a_groups = [''D''], a_subject = ''L0'', a_count = 1, a_type = ''lecture''\<rparr>,
         \<lparr>a_teacher = ''T'', a_groups = [''D'', ''B''], a_subject = ''S'', a_count = 1, a_type = ''seminar''\<rparr>,
         \<lparr>a_teacher = ''T'', a_groups = [''A'', ''B'', ''C''], a_subject = ''L'', a_count = 2, a_type = ''lecture''\<rparr>,
         \<lparr>a_teacher = ''T2'', a_groups = [''B''], a_subject = ''S2'', a_count = 1, a_type = ''seminar''\<rparr>],
      teacher_prefs = Map.empty, teacher_busy = Map.empty,
      days = [''Mon''], times_list = [''9'']\<rparr>"

definition order_example_tasks :: "Task list" where
  "order_example_tasks =
     [\<lparr>t_teacher = ''T'', t_groups = [''D''], t_subject = ''L0'', t_type = ''lecture''\<rparr>,
      \<lparr>t_teacher = ''T'', t_groups = [''D''], t_subject = ''S'', t_type = ''seminar''\<rparr>,
      \<lparr>t_teacher = ''T'', t_groups = [''B''], t_subject = ''S'', t_type = ''seminar''\<rparr>,
      \<lparr>t_teacher = ''T'', t_groups = [''B'', ''C''], t_subject = ''L'', t_type = ''lecture''\<rparr>,
      \<lparr>t_teacher = ''T'', t_groups = [''B'', ''C''], t_subject = ''L'', t_type = ''lecture''\<rparr>,
      \<lparr>t_teacher = ''T'', t_groups = [''A''], t_subject = ''L'', t_type = ''lecture''\<rparr>,
      \<lparr>t_teacher = ''T'', t_groups = [''A''], t_subject = ''L'', t_type = ''lecture''\<rparr>,
      \<lparr>t_teacher = ''T2'', t_groups = [''B''], t_subject = ''S2'', t_type = ''seminar''\<rparr>]"

definition order_example_sorted :: "Task list" where
  "order_example_sorted =
     [\<lparr>t_teacher = ''T'', t_groups = [''B'', ''C''], t_subject = ''L'', t_type = ''lecture''\<rparr>,
      \<lparr>t_teacher = ''T'', t_groups = [''B'', ''C''], t_subject = ''L'', t_type = ''lecture''\<rparr>,
      \<lparr>t_teacher = ''T'', t_groups = [''A''], t_subject = ''L'', t_type = ''lecture''\<rparr>,
      \<lparr>t_teacher = ''T'', t_groups = [''A''], t_subject = ''L'', t_type = ''lecture''\<rparr>,
      \<lparr>t_teacher = ''T'', t_groups = [''D''], t_subject = ''L0'', t_type = ''lecture''\<rparr>,
      \<lparr>t_teacher = ''T'', t_groups = [''B''], t_subject = ''S'', t_type = ''seminar''\<rparr>,
      \<lparr>t_teacher = ''T2'', t_groups = [''B''], t_subject = ''S2'', t_type = ''seminar''\<rparr>,
      \<lparr>t_teacher = ''T'', t_groups = [''D''], t_subject = ''S'', t_type = ''seminar''\<rparr>]"







section \<open>Lemmas\<close>

subsection \<open>Sorting lemmas\<close>

lemma set_sort_reverse: "set (sort_reverse f xs) = set xs"
  by (simp add: sort_reverse_def)

lemma mset_sort_reverse: "mset (sort_reverse f xs) = mset xs"
  by (simp add: sort_reverse_def)

lemma length_sort_reverse: "length (sort_reverse f xs) = length xs"
  by (simp add: sort_reverse_def)

lemma sort_reverse_Nil_iff: "sort_reverse f xs = [] \<longleftrightarrow> xs = []"
  using length_sort_reverse[of f xs] by (metis length_0_conv)

lemma sorted_sort_reverse: "sorted_wrt (\<lambda>a b. f b \<le> f a) (sort_reverse f xs)"
proof -
  have "sorted (map f (sort_key f (rev xs)))" by (rule sorted_sort_key)
  then have "sorted_wrt (\<lambda>a b. f a \<le> f b) (sort_key f (rev xs))"
    by (simp add: sorted_map)
  then show ?thesis
    by (simp add: sort_reverse_def sorted_wrt_rev)
qed

lemma sort_reverse_stable:
  "filter (\<lambda>y. f y = k) (sort_reverse f xs) = filter (\<lambda>y. f y = k) xs"
proof -
  have "filter (\<lambda>y. f y = k) (sort_reverse f xs) = rev (filter (\<lambda>y. f y = k) (sort_key f (rev xs)))"
    by (simp add: sort_reverse_def rev_filter)
  also have "\<dots> = rev (filter (\<lambda>y. f y = k) (rev xs))"
    by (simp only: sort_key_stable)
  also have "\<dots> = filter (\<lambda>y. f y = k) xs"
    by (simp add: rev_filter)
  finally show ?thesis .
qed

lemma key_all_Inr_iff: "key_all f xs = Inr ks \<longleftrightarrow> map f xs = map Inr ks"
proof (induction xs arbitrary: ks)
  case Nil
  then show ?case by auto
next
  case (Cons x xs)
  show ?case
  proof (cases "f x")
    case (Inl e)
    then show ?thesis by (cases ks) auto
  next
    case (Inr k)
    show ?thesis
    proof (cases "key_all f xs")
      case (Inl e)
      with Cons[of "tl ks"] Inr show ?thesis by (cases ks) auto
    next
      case r: (Inr ks')
      with Cons[of ks'] Cons[of "tl ks"] Inr show ?thesis by (cases ks) auto
    qed
  qed
qed

lemma key_all_Inl_iff: "(\<exists>e. key_all f xs = Inl e) \<longleftrightarrow> (\<exists>x\<in>set xs. \<exists>e. f x = Inl e)"
  by (induction xs) (auto split: sum.splits)

lemma key_all_total:
  assumes "\<forall>x\<in>set xs. f x = Inr (g x)"
  shows "key_all f xs = Inr (map g xs)"
  using assms by (induction xs) auto

lemma sort_key_decorate:
  "map snd (sort_key fst (map (\<lambda>x. (g x, x)) xs)) = sort_key g xs"
proof (induction xs)
  case Nil
  then show ?case by simp
next
  case (Cons x xs)
  have ins: "map snd (insort_key fst (g x, x) zs) = insort_key g x (map snd zs)"
    if "\<forall>z\<in>set zs. fst z = g (snd z)" for zs
    using that by (induction zs) auto
  have dec: "\<forall>z\<in>set (sort_key fst (map (\<lambda>x. (g x, x)) xs)). fst z = g (snd z)"
    by auto
  show ?case using Cons ins[OF dec] by simp
qed

lemma sort_reverse_decorate:
  "map snd (sort_reverse fst (map (\<lambda>x. (g x, x)) xs)) = sort_reverse g xs"
proof -
  have "rev (map (\<lambda>x. (g x, x)) xs) = map (\<lambda>x. (g x, x)) (rev xs)"
    by (simp add: rev_map)
  then have "sort_reverse fst (map (\<lambda>x. (g x, x)) xs)
      = rev (sort_key fst (map (\<lambda>x. (g x, x)) (rev xs)))"
    by (simp only: sort_reverse_def)
  then have "map snd (sort_reverse fst (map (\<lambda>x. (g x, x)) xs))
      = rev (map snd (sort_key fst (map (\<lambda>x. (g x, x)) (rev xs))))"
    by (simp only: rev_map)
  then show ?thesis
    by (simp only: sort_key_decorate sort_reverse_def)
qed

lemma sort_reverse_by_total:
  assumes "\<forall>x\<in>set xs. f x = Inr (g x)"
  shows "sort_reverse_by f xs = Inr (sort_reverse g xs)"
proof -
  have "zip (map g xs) xs = map (\<lambda>x. (g x, x)) xs"
    by (induction xs) auto
  then show ?thesis
    using key_all_total[OF assms] by (simp add: sort_reverse_by_def sort_reverse_decorate)
qed

lemma sort_reverse_by_Inr:
  assumes "sort_reverse_by f xs = Inr ys"
  shows "(\<forall>x\<in>set xs. \<exists>k. f x = Inr k) \<and> ys = sort_reverse (\<lambda>x. projr (f x)) xs"
proof -
  from assms obtain ks where ks: "key_all f xs = Inr ks"
    by (auto simp: sort_reverse_by_def split: sum.splits)
  then have m: "map f xs = map Inr ks" by (simp add: key_all_Inr_iff)
  have all: "\<forall>x\<in>set xs. \<exists>k. f x = Inr k"
  proof
    fix x assume "x \<in> set xs"
    then have "f x \<in> set (map f xs)" by simp
    with m show "\<exists>k. f x = Inr k" by auto
  qed
  then have "\<forall>x\<in>set xs. f x = Inr (projr (f x))" by auto
  from sort_reverse_by_total[OF this] assms show ?thesis using all by simp
qed

lemma sort_reverse_by_Inl:
  "(\<exists>e. sort_reverse_by f xs = Inl e) \<longleftrightarrow> (\<exists>x\<in>set xs. \<exists>e. f x = Inl e)"
  using key_all_Inl_iff[of f xs] by (auto simp: sort_reverse_by_def split: sum.splits)

subsection \<open>The slot list and the slot map\<close>

lemma inner_slots_wf:
  assumes "slots_wf D acc" "d \<in> D"
  shows "slots_wf D (fold (add_slot d) (enumerate n ts) acc)"
  using assms(1)
proof (induction ts arbitrary: n acc)
  case Nil
  then show ?case by simp
next
  case (Cons t ts)
  obtain sl sm where acc: "acc = (sl, sm)" by (cases acc)
  have "slots_wf D (sl @ [slot_name d t], sm(slot_name d t \<mapsto> \<lparr>day = d, time_idx = n\<rparr>))"
    using Cons.prems assms(2) by (auto simp: slots_wf_def acc)
  then have "slots_wf D (add_slot d (n, t) acc)" by (simp add: add_slot_def acc Let_def)
  from Cons.IH[OF this] show ?case by simp
qed

lemma inner_slots_fst:
  "fst (fold (add_slot d) (enumerate n ts) acc) = fst acc @ map (slot_name d) ts"
proof (induction ts arbitrary: n acc)
  case Nil
  then show ?case by simp
next
  case (Cons t ts)
  obtain sl sm where acc: "acc = (sl, sm)" by (cases acc)
  have "fst (add_slot d (n, t) acc) = fst acc @ [slot_name d t]"
    by (simp add: add_slot_def acc Let_def)
  then show ?case by (simp add: Cons.IH)
qed

lemma outer_slots_wf:
  assumes "slots_wf D acc" "set ds \<subseteq> D"
  shows "slots_wf D (fold (\<lambda>d acc. fold (add_slot d) (enumerate 0 ts) acc) ds acc)"
  using assms
proof (induction ds arbitrary: acc)
  case Nil
  then show ?case by simp
next
  case (Cons d ds)
  then have "d \<in> D" by simp
  from inner_slots_wf[OF Cons.prems(1) this]
  show ?case using Cons by simp
qed

lemma outer_slots_fst:
  "fst (fold (\<lambda>d acc. fold (add_slot d) (enumerate 0 ts) acc) ds acc)
   = fst acc @ concat (map (\<lambda>d. map (slot_name d) ts) ds)"
  by (induction ds arbitrary: acc) (simp_all add: inner_slots_fst)

lemma slots_eq: "slots data = concat (map (\<lambda>d. map (slot_name d) (times_list data)) (days data))"
  by (simp add: slots_def build_slots_def outer_slots_fst)

lemma slots_empty_iff: "slots data = [] \<longleftrightarrow> days data = [] \<or> times_list data = []"
  by (auto simp: slots_eq)

lemma slot_map_defined:
  assumes "s \<in> set (slots data)"
  shows "\<exists>info. slot_map data s = Some info \<and> day info \<in> set (days data)"
proof -
  have "slots_wf (set (days data)) ([], Map.empty)" by (simp add: slots_wf_def)
  from outer_slots_wf[OF this subset_refl, of "times_list data"]
  have "slots_wf (set (days data)) (build_slots (days data) (times_list data))"
    by (simp add: build_slots_def)
  with assms show ?thesis by (simp add: slots_wf_def slots_def slot_map_def)
qed

subsection \<open>One task\<close>

lemma find_Some_set: "find P xs = Some x \<Longrightarrow> P x \<and> x \<in> set xs"
  by (induction xs) (auto split: if_splits)

lemma pick_room_free_fits:
  assumes "pick_room data st task slot = Some target" "target \<noteq> []"
  shows "target \<notin> occ_rooms st slot \<and> fits data (stud_count data (t_groups task)) target"
  using assms
  by (auto simp: pick_room_def Let_def truthy_def split: if_splits option.splits
           dest!: find_Some_set)

lemma try_slots_Inr:
  assumes "try_slots data st task rsn sl = Inr (st', placed, rsn')"
  shows "(placed \<and> (\<exists>slot\<in>set sl. \<exists>target. pick_room data st task slot = Some target
              \<and> target \<noteq> [] \<and> commit data st task slot target = Inr st'))
       \<or> (\<not> placed \<and> st' = st \<and> rsn' = (if sl = [] then rsn else NoRoomOfCapacity))"
  using assms
proof (induction sl arbitrary: rsn)
  case Nil
  then show ?case by simp
next
  case (Cons slot rest)
  show ?case
  proof (cases "pick_room data st task slot")
    case None
    with Cons.prems have "try_slots data st task NoRoomOfCapacity rest = Inr (st', placed, rsn')"
      by simp
    from Cons.IH[OF this] show ?thesis by auto
  next
    case (Some target)
    show ?thesis
    proof (cases "target = []")
      case True
      with Some Cons.prems have "try_slots data st task NoRoomOfCapacity rest = Inr (st', placed, rsn')"
        by simp
      from Cons.IH[OF this] show ?thesis by auto
    next
      case False
      with Some Cons.prems show ?thesis by (auto split: sum.splits)
    qed
  qed
qed

lemma place_task_cases:
  assumes "place_task data st task = Inr st'"
  shows "(\<exists>slot\<in>set (avail data st task). \<exists>target. pick_room data st task slot = Some target
              \<and> target \<noteq> [] \<and> commit data st task slot target = Inr st')
       \<or> st' = st\<lparr>st_errors := st_errors st @
                    [\<lparr>m_subject = t_subject task, m_type = t_type task,
                      m_teacher = t_teacher task,
                      m_reason = (if avail data st task = [] then NoCommonFreeTime
                                  else NoRoomOfCapacity)\<rparr>]\<rparr>"
proof -
  from assms obtain avail' where s: "sort_reverse_by (score data st (t_teacher task)) (avail data st task) = Inr avail'"
    by (auto simp: place_task_def split: sum.splits)
  from sort_reverse_by_Inr[OF s]
  have av: "set avail' = set (avail data st task)" "avail' = [] \<longleftrightarrow> avail data st task = []"
    by (simp_all add: set_sort_reverse sort_reverse_Nil_iff)
  from assms s obtain st1 placed rsn where t: "try_slots data st task NoCommonFreeTime avail' = Inr (st1, placed, rsn)"
    by (auto simp: place_task_def split: sum.splits)
  from assms s t have st': "st' = (if \<not> placed then st1\<lparr>st_errors := st_errors st1 @
                    [\<lparr>m_subject = t_subject task, m_type = t_type task,
                      m_teacher = t_teacher task, m_reason = rsn\<rparr>]\<rparr> else st1)"
    by (auto simp: place_task_def)
  from try_slots_Inr[OF t] show ?thesis
  proof
    assume "placed \<and> (\<exists>slot\<in>set avail'. \<exists>target. pick_room data st task slot = Some target
              \<and> target \<noteq> [] \<and> commit data st task slot target = Inr st1)"
    with st' av show ?thesis by simp
  next
    assume "\<not> placed \<and> st1 = st \<and> rsn = (if avail' = [] then NoCommonFreeTime else NoRoomOfCapacity)"
    with st' av(2) show ?thesis by simp
  qed
qed

lemma place_all_invariant:
  assumes "place_all data st ts = Inr st'" "P st"
    and "\<And>s t s'. P s \<Longrightarrow> t \<in> set ts \<Longrightarrow> place_task data s t = Inr s' \<Longrightarrow> P s'"
  shows "P st'"
  using assms
proof (induction ts arbitrary: st)
  case Nil
  then show ?case by simp
next
  case (Cons t ts)
  from Cons.prems(1) obtain s1 where s1: "place_task data st t = Inr s1" "place_all data s1 ts = Inr st'"
    by (auto split: sum.splits)
  have "P s1" using Cons.prems(3)[OF Cons.prems(2) _ s1(1)] by simp
  show ?case
  proof (rule Cons.IH[OF s1(2) \<open>P s1\<close>])
    fix s t' s'
    assume a: "P s" "t' \<in> set ts" "place_task data s t' = Inr s'"
    from a(2) have "t' \<in> set (t # ts)" by simp
    from Cons.prems(3)[OF a(1) this a(3)] show "P s'" .
  qed
qed

subsection \<open>What a commit does\<close>

lemma commit_Inr:
  assumes "commit data st task slot target = Inr st'"
  obtains info daily exist where
    "slot_map data slot = Some info"
    "teacher_daily st (t_teacher task) = Some daily"
    "daily (day info) = Some exist"
    "occ_teachers st' = (occ_teachers st)(slot := insert (t_teacher task) (occ_teachers st slot))"
    "occ_groups st' = (occ_groups st)(slot := occ_groups st slot \<union> set (t_groups task))"
    "occ_rooms st' = (occ_rooms st)(slot := insert target (occ_rooms st slot))"
    "teacher_daily st' =
       (teacher_daily st)(t_teacher task \<mapsto> daily(day info \<mapsto> insert (time_idx info) exist))"
    "st_schedule st' = st_schedule st @
       [\<lparr>e_slot = slot, e_day = day info, e_teacher = t_teacher task,
         e_groups = t_groups task, e_subject = t_subject task,
         e_room = target, e_type = t_type task\<rparr>]"
    "st_errors st' = st_errors st"
  using assms by (auto simp: commit_def split: option.splits)

lemma avail_member:
  assumes "slot \<in> set (avail data st task)"
  shows "slot \<in> set (slots data)"
    and "t_teacher task \<notin> occ_teachers st slot"
    and "\<forall>g\<in>set (t_groups task). g \<notin> occ_groups st slot"
    and "\<forall>busy. teacher_busy data (t_teacher task) = Some busy \<longrightarrow> slot \<notin> set busy"
  using assms by (auto simp: avail_def split: option.splits)

subsection \<open>Occupancy covers the schedule\<close>

lemma inv_occ_init: "inv_occ data (init_state data)"
  by (simp add: inv_occ_def init_state_def)

lemma inv_occ_commit:
  assumes inv: "inv_occ data st"
    and sl: "slot \<in> set (avail data st task)"
    and pr: "pick_room data st task slot = Some target" "target \<noteq> []"
    and co: "commit data st task slot target = Inr st'"
  shows "inv_occ data st'"
proof -
  from pick_room_free_fits[OF pr] have free: "target \<notin> occ_rooms st slot" by simp
  note av = avail_member[OF sl]
  from co show ?thesis
  proof (rule commit_Inr)
    fix info daily exist
    assume ot: "occ_teachers st' = (occ_teachers st)(slot := insert (t_teacher task) (occ_teachers st slot))"
      and og: "occ_groups st' = (occ_groups st)(slot := occ_groups st slot \<union> set (t_groups task))"
      and orr: "occ_rooms st' = (occ_rooms st)(slot := insert target (occ_rooms st slot))"
      and sc: "st_schedule st' = st_schedule st @
       [\<lparr>e_slot = slot, e_day = day info, e_teacher = t_teacher task,
         e_groups = t_groups task, e_subject = t_subject task,
         e_room = target, e_type = t_type task\<rparr>]"
    have cover: "\<forall>e\<in>set (st_schedule st').
         e_slot e \<in> set (slots data)
         \<and> e_teacher e \<in> occ_teachers st' (e_slot e)
         \<and> set (e_groups e) \<subseteq> occ_groups st' (e_slot e)
         \<and> e_room e \<in> occ_rooms st' (e_slot e)"
      using inv av(1) by (auto simp: inv_occ_def ot og orr sc)
    have new: "\<forall>e\<in>set (st_schedule st).
        no_clash e \<lparr>e_slot = slot, e_day = day info, e_teacher = t_teacher task,
         e_groups = t_groups task, e_subject = t_subject task,
         e_room = target, e_type = t_type task\<rparr>"
    proof
      fix e assume e: "e \<in> set (st_schedule st)"
      with inv have c: "e_teacher e \<in> occ_teachers st (e_slot e)"
        "set (e_groups e) \<subseteq> occ_groups st (e_slot e)"
        "e_room e \<in> occ_rooms st (e_slot e)"
        by (auto simp: inv_occ_def)
      show "no_clash e \<lparr>e_slot = slot, e_day = day info, e_teacher = t_teacher task,
         e_groups = t_groups task, e_subject = t_subject task,
         e_room = target, e_type = t_type task\<rparr>"
        using c av(2,3) free by (auto simp: no_clash_def)
    qed
    from inv have "sorted_wrt no_clash (st_schedule st)" by (simp add: inv_occ_def)
    with new have "sorted_wrt no_clash (st_schedule st')"
      by (simp add: sc sorted_wrt_append)
    with cover show ?thesis by (simp add: inv_occ_def)
  qed
qed

lemma inv_occ_place_task:
  assumes "inv_occ data st" "place_task data st task = Inr st'"
  shows "inv_occ data st'"
  using place_task_cases[OF assms(2)]
proof
  assume "\<exists>slot\<in>set (avail data st task). \<exists>target. pick_room data st task slot = Some target
              \<and> target \<noteq> [] \<and> commit data st task slot target = Inr st'"
  then show ?thesis using inv_occ_commit[OF assms(1)] by blast
next
  assume "st' = st\<lparr>st_errors := st_errors st @
                    [\<lparr>m_subject = t_subject task, m_type = t_type task,
                      m_teacher = t_teacher task,
                      m_reason = (if avail data st task = [] then NoCommonFreeTime
                                  else NoRoomOfCapacity)\<rparr>]\<rparr>"
  with assms(1) show ?thesis by (simp add: inv_occ_def)
qed

lemma inv_occ_place_all:
  assumes "place_all data (init_state data) ts = Inr st"
  shows "inv_occ data st"
  by (rule place_all_invariant[where P = "inv_occ data", OF assms inv_occ_init])
     (rule inv_occ_place_task)

subsection \<open>Sorting keeps a symmetric pairwise property\<close>

lemma sorted_wrt_insort_key_sym:
  assumes "\<And>a b. P a b \<Longrightarrow> P b a"
  shows "sorted_wrt P (insort_key f x xs) \<longleftrightarrow> (\<forall>y\<in>set xs. P x y) \<and> sorted_wrt P xs"
  using assms by (induction xs) (auto simp: set_insort_key)

lemma sorted_wrt_sort_key_sym:
  assumes "\<And>a b. P a b \<Longrightarrow> P b a"
  shows "sorted_wrt P (sort_key f xs) \<longleftrightarrow> sorted_wrt P xs"
  by (induction xs) (simp_all add: sorted_wrt_insort_key_sym[of P, OF assms])

lemma no_clash_sym: "no_clash a b \<Longrightarrow> no_clash b a"
  by (auto simp: no_clash_def)

lemma generate_schedule_cases:
  assumes "generate_schedule data = Inr r"
  obtains "slots data = []"
      "r = \<lparr>status = ''error'', message = Some NoDaysOrTimes, schedule = [], errors = []\<rparr>"
  | st where "slots data \<noteq> []"
      "place_all data (init_state data) (sorted_tasks data) = Inr st"
      "r = \<lparr>status = ''success'', message = None,
            schedule = sort_key (\<lambda>x. index_of (slots data) (e_slot x)) (st_schedule st),
            errors = st_errors st\<rparr>"
  using assms by (auto simp: generate_schedule_def split: if_splits sum.splits)

lemma schedule_no_clash:
  assumes "generate_schedule data = Inr r"
  shows "sorted_wrt no_clash (schedule r)"
  using assms
proof (cases rule: generate_schedule_cases)
  case 1
  then show ?thesis by simp
next
  case (2 st)
  from inv_occ_place_all[OF 2(2)] have "sorted_wrt no_clash (st_schedule st)"
    by (simp add: inv_occ_def)
  then show ?thesis
    by (simp add: 2(3) sorted_wrt_sort_key_sym[of no_clash, OF no_clash_sym])
qed

subsection \<open>Invariants of one task, and the capacity of the rooms\<close>

lemma place_task_invariant:
  assumes "place_task data st task = Inr st'"
    and "\<And>slot target. slot \<in> set (avail data st task) \<Longrightarrow>
           pick_room data st task slot = Some target \<Longrightarrow> target \<noteq> [] \<Longrightarrow>
           commit data st task slot target = Inr st' \<Longrightarrow> P st'"
    and "\<And>m. P (st\<lparr>st_errors := st_errors st @ [m]\<rparr>)"
  shows "P st'"
  using place_task_cases[OF assms(1)]
proof
  assume "\<exists>slot\<in>set (avail data st task). \<exists>target. pick_room data st task slot = Some target
              \<and> target \<noteq> [] \<and> commit data st task slot target = Inr st'"
  then show ?thesis using assms(2) by blast
next
  assume "st' = st\<lparr>st_errors := st_errors st @
                    [\<lparr>m_subject = t_subject task, m_type = t_type task,
                      m_teacher = t_teacher task,
                      m_reason = (if avail data st task = [] then NoCommonFreeTime
                                  else NoRoomOfCapacity)\<rparr>]\<rparr>"
  then show ?thesis using assms(3) by simp
qed

lemma inv_cap_place_task:
  assumes "inv_cap data st" "place_task data st task = Inr st'"
  shows "inv_cap data st'"
proof (rule place_task_invariant[where P = "inv_cap data", OF assms(2)])
  fix slot target
  assume pr: "pick_room data st task slot = Some target" "target \<noteq> []"
    and co: "commit data st task slot target = Inr st'"
  from pick_room_free_fits[OF pr] have f: "fits data (stud_count data (t_groups task)) target" by simp
  from co show "inv_cap data st'"
  proof (rule commit_Inr)
    fix info :: SlotInfo
    assume "st_schedule st' = st_schedule st @
       [\<lparr>e_slot = slot, e_day = day info, e_teacher = t_teacher task,
         e_groups = t_groups task, e_subject = t_subject task,
         e_room = target, e_type = t_type task\<rparr>]"
    then show ?thesis using assms(1) f pr(2) by (auto simp: inv_cap_def)
  qed
next
  fix m show "inv_cap data (st\<lparr>st_errors := st_errors st @ [m]\<rparr>)"
    using assms(1) by (simp add: inv_cap_def)
qed

lemma inv_cap_place_all:
  assumes "place_all data (init_state data) ts = Inr st"
  shows "inv_cap data st"
proof (rule place_all_invariant[where P = "inv_cap data", OF assms])
  show "inv_cap data (init_state data)" by (simp add: inv_cap_def init_state_def)
qed (rule inv_cap_place_task)

subsection \<open>Conservation\<close>

lemma place_task_count:
  assumes "place_task data st task = Inr st'"
  shows "length (st_schedule st') + length (st_errors st')
       = Suc (length (st_schedule st) + length (st_errors st))"
proof (rule place_task_invariant[where
      P = "\<lambda>s. length (st_schedule s) + length (st_errors s)
               = Suc (length (st_schedule st) + length (st_errors st))", OF assms])
  fix slot target
  assume "commit data st task slot target = Inr st'"
  then show "length (st_schedule st') + length (st_errors st')
       = Suc (length (st_schedule st) + length (st_errors st))"
    by (rule commit_Inr) simp
qed simp_all

lemma place_all_count:
  assumes "place_all data st ts = Inr st'"
  shows "length (st_schedule st') + length (st_errors st')
       = length (st_schedule st) + length (st_errors st) + length ts"
  using assms
proof (induction ts arbitrary: st)
  case Nil
  then show ?case by simp
next
  case (Cons t ts)
  from Cons.prems obtain s1 where s1: "place_task data st t = Inr s1" "place_all data s1 ts = Inr st'"
    by (auto split: sum.splits)
  from Cons.IH[OF s1(2)] place_task_count[OF s1(1)] show ?case by simp
qed

lemma length_sorted_tasks: "length (sorted_tasks data) = length (build_tasks data)"
  by (simp add: sorted_tasks_def length_sort_reverse)

lemma generate_schedule_count:
  assumes "generate_schedule data = Inr r" "slots data \<noteq> []"
  shows "length (schedule r) + length (errors r) = length (build_tasks data)"
  using assms(1)
proof (cases rule: generate_schedule_cases)
  case 1
  with assms(2) show ?thesis by simp
next
  case (2 st)
  from place_all_count[OF 2(2)] show ?thesis
    by (simp add: 2(3) init_state_def length_sorted_tasks)
qed

lemma place_task_outcome:
  assumes "place_task data st task = Inr st'"
  shows "(st_errors st' = st_errors st
          \<and> (\<exists>e. st_schedule st' = st_schedule st @ [e]
                \<and> e_slot e \<in> set (avail data st task)
                \<and> e_teacher e = t_teacher task \<and> e_groups e = t_groups task
                \<and> e_subject e = t_subject task \<and> e_type e = t_type task))
       \<or> (st_schedule st' = st_schedule st
          \<and> st_errors st' = st_errors st @
                [\<lparr>m_subject = t_subject task, m_type = t_type task,
                  m_teacher = t_teacher task,
                  m_reason = (if avail data st task = [] then NoCommonFreeTime
                              else NoRoomOfCapacity)\<rparr>])"
  using place_task_cases[OF assms]
proof
  assume "\<exists>slot\<in>set (avail data st task). \<exists>target. pick_room data st task slot = Some target
              \<and> target \<noteq> [] \<and> commit data st task slot target = Inr st'"
  then obtain slot target where sl: "slot \<in> set (avail data st task)"
    and co: "commit data st task slot target = Inr st'" by blast
  from co show ?thesis
    by (rule commit_Inr) (simp add: sl)
next
  assume "st' = st\<lparr>st_errors := st_errors st @
                    [\<lparr>m_subject = t_subject task, m_type = t_type task,
                      m_teacher = t_teacher task,
                      m_reason = (if avail data st task = [] then NoCommonFreeTime
                                  else NoRoomOfCapacity)\<rparr>]\<rparr>"
  then show ?thesis by simp
qed

subsection \<open>The per teacher map of used time indices\<close>

lemma inv_td_init: "inv_td data (init_state data)"
  by (auto simp: inv_td_def init_state_def dom_def)

lemma inv_td_None:
  assumes "inv_td data st"
  shows "teacher_daily st t = None \<longleftrightarrow> t \<notin> set (teachers data)"
proof -
  from assms have "dom (teacher_daily st) = set (teachers data)" by (simp add: inv_td_def)
  then show ?thesis by (metis domIff)
qed

lemma inv_td_place_task:
  assumes "inv_td data st" "place_task data st task = Inr st'"
  shows "inv_td data st'"
proof (rule place_task_invariant[where P = "inv_td data", OF assms(2)])
  fix slot target
  assume co: "commit data st task slot target = Inr st'"
  from co show "inv_td data st'"
  proof (rule commit_Inr)
    fix info :: SlotInfo and daily :: "string \<rightharpoonup> nat set" and exist :: "nat set"
    assume td: "teacher_daily st (t_teacher task) = Some daily"
      and ex: "daily (day info) = Some exist"
      and td': "teacher_daily st' =
       (teacher_daily st)(t_teacher task \<mapsto> daily(day info \<mapsto> insert (time_idx info) exist))"
    from inv_td_None[OF assms(1), of "t_teacher task"] td
    have known: "t_teacher task \<in> set (teachers data)" by simp
    from assms(1) td have old: "\<forall>d\<in>set (days data). \<exists>exist. daily d = Some exist \<and> finite exist"
      by (auto simp: inv_td_def)
    have dom: "dom (teacher_daily st') = set (teachers data)"
      using assms(1) known by (auto simp: inv_td_def td')
    have inner: "\<forall>t daily'. teacher_daily st' t = Some daily' \<longrightarrow>
             (\<forall>d\<in>set (days data). \<exists>exist. daily' d = Some exist \<and> finite exist)"
    proof (intro allI impI)
      fix t daily' assume a: "teacher_daily st' t = Some daily'"
      show "\<forall>d\<in>set (days data). \<exists>exist. daily' d = Some exist \<and> finite exist"
      proof (cases "t = t_teacher task")
        case True
        with a td' have "daily' = daily(day info \<mapsto> insert (time_idx info) exist)" by simp
        with old ex show ?thesis by auto
      next
        case False
        with a td' have "teacher_daily st t = Some daily'" by simp
        with assms(1) show ?thesis by (auto simp: inv_td_def)
      qed
    qed
    from dom inner show ?thesis by (simp add: inv_td_def)
  qed
next
  fix m show "inv_td data (st\<lparr>st_errors := st_errors st @ [m]\<rparr>)"
    using assms(1) by (simp add: inv_td_def)
qed

lemma inv_td_place_all:
  assumes "place_all data (init_state data) ts = Inr st"
  shows "inv_td data st"
  by (rule place_all_invariant[where P = "inv_td data", OF assms inv_td_init])
     (rule inv_td_place_task)

subsection \<open>When the placement returns and when it raises\<close>

lemma inv_td_lookup:
  assumes "inv_td data st" "t \<in> set (teachers data)" "d \<in> set (days data)"
  obtains daily exist where "teacher_daily st t = Some daily" "daily d = Some exist" "finite exist"
proof -
  from inv_td_None[OF assms(1), of t] assms(2) have "teacher_daily st t \<noteq> None"
    by simp
  then obtain daily where daily: "teacher_daily st t = Some daily" by auto
  from assms(1) have "\<forall>t daily. teacher_daily st t = Some daily \<longrightarrow>
             (\<forall>d\<in>set (days data). \<exists>exist. daily d = Some exist \<and> finite exist)"
    by (simp add: inv_td_def)
  with daily have "\<forall>d\<in>set (days data). \<exists>exist. daily d = Some exist \<and> finite exist"
    by blast
  with assms(3) obtain exist where "daily d = Some exist" "finite exist" by blast
  with daily that show ?thesis by blast
qed

lemma score_known:
  assumes "inv_td data st" "t_name \<in> set (teachers data)" "slot \<in> set (slots data)"
  shows "\<exists>k. score data st t_name slot = Inr k"
proof -
  from slot_map_defined[OF assms(3)] obtain info where
    info: "slot_map data slot = Some info" "day info \<in> set (days data)" by blast
  from inv_td_lookup[OF assms(1,2) info(2)] obtain daily exist where
    "teacher_daily st t_name = Some daily" "daily (day info) = Some exist" by blast
  with info show ?thesis by (simp add: score_def Let_def)
qed

lemma commit_known:
  assumes "inv_td data st" "t_teacher task \<in> set (teachers data)" "slot \<in> set (slots data)"
  shows "\<exists>st'. commit data st task slot target = Inr st'"
proof -
  from slot_map_defined[OF assms(3)] obtain info where
    info: "slot_map data slot = Some info" "day info \<in> set (days data)" by blast
  from inv_td_lookup[OF assms(1,2) info(2)] obtain daily exist where
    "teacher_daily st (t_teacher task) = Some daily" "daily (day info) = Some exist" by blast
  with info show ?thesis by (simp add: commit_def)
qed

lemma try_slots_known:
  assumes "inv_td data st" "t_teacher task \<in> set (teachers data)" "set sl \<subseteq> set (slots data)"
  shows "\<exists>res. try_slots data st task rsn sl = Inr res"
  using assms(3)
proof (induction sl arbitrary: rsn)
  case Nil
  show ?case by (rule exI[of _ "(st, False, rsn)"]) simp
next
  case (Cons slot rest)
  from Cons.prems have sub: "set rest \<subseteq> set (slots data)" by simp
  have rest: "\<exists>res. try_slots data st task rsn' rest = Inr res" for rsn'
    by (rule Cons.IH[OF sub])
  from Cons.prems have "slot \<in> set (slots data)" by simp
  from commit_known[OF assms(1,2) this]
  have co: "\<And>target. \<exists>st'. commit data st task slot target = Inr st'" by simp
  show ?case
  proof (cases "pick_room data st task slot")
    case None
    with rest show ?thesis by simp
  next
    case (Some target)
    from co[of target] obtain st' where "commit data st task slot target = Inr st'" by blast
    with Some rest[of NoRoomOfCapacity] show ?thesis by (cases "target = []") auto
  qed
qed

lemma avail_subset: "set (avail data st task) \<subseteq> set (slots data)"
  by (auto simp: avail_def)

lemma place_task_known:
  assumes "inv_td data st" "t_teacher task \<in> set (teachers data)"
  shows "\<exists>st'. place_task data st task = Inr st'"
proof -
  have "\<forall>slot\<in>set (avail data st task). \<exists>k. score data st (t_teacher task) slot = Inr k"
    using score_known[OF assms] avail_subset by blast
  then have "\<not> (\<exists>e. sort_reverse_by (score data st (t_teacher task)) (avail data st task) = Inl e)"
    by (auto simp: sort_reverse_by_Inl)
  then obtain avail' where s: "sort_reverse_by (score data st (t_teacher task)) (avail data st task) = Inr avail'"
    by (cases "sort_reverse_by (score data st (t_teacher task)) (avail data st task)") auto
  from sort_reverse_by_Inr[OF s] have "set avail' \<subseteq> set (slots data)"
    using avail_subset by (simp add: set_sort_reverse)
  from try_slots_known[OF assms this] obtain res where
    "try_slots data st task NoCommonFreeTime avail' = Inr res" by blast
  with s show ?thesis by (cases res) (auto simp: place_task_def)
qed

lemma place_all_known:
  assumes "inv_td data st" "\<forall>t\<in>set ts. t_teacher t \<in> set (teachers data)"
  shows "\<exists>st'. place_all data st ts = Inr st'"
  using assms
proof (induction ts arbitrary: st)
  case Nil
  then show ?case by simp
next
  case (Cons t ts)
  from Cons.prems have "t_teacher t \<in> set (teachers data)" by simp
  from place_task_known[OF Cons.prems(1) this] obtain s1 where s1: "place_task data st t = Inr s1"
    by blast
  from inv_td_place_task[OF Cons.prems(1) s1] Cons.IH[of s1] Cons.prems(2) s1
  show ?case by simp
qed

lemma set_sorted_tasks: "set (sorted_tasks data) = set (build_tasks data)"
  by (simp add: sorted_tasks_def set_sort_reverse)

lemma generate_schedule_known:
  assumes "\<forall>t\<in>set (build_tasks data). t_teacher t \<in> set (teachers data)"
  shows "\<exists>r. generate_schedule data = Inr r"
proof -
  from place_all_known[where data = data and st = "init_state data" and ts = "sorted_tasks data",
      OF inv_td_init] assms
  obtain st where "place_all data (init_state data) (sorted_tasks data) = Inr st"
    by (auto simp: set_sorted_tasks)
  then show ?thesis by (simp add: generate_schedule_def)
qed

lemma score_unknown:
  assumes "teacher_daily st t_name = None"
  shows "score data st t_name slot = Inl KeyError"
  using assms by (simp add: score_def split: option.splits)

lemma place_task_unknown:
  assumes "teacher_daily st (t_teacher task) = None"
  shows "avail data st task \<noteq> [] \<longrightarrow>
           sort_reverse_by (score data st (t_teacher task)) (avail data st task) = Inl KeyError
           \<and> place_task data st task = Inl KeyError"
    and "avail data st task = [] \<longrightarrow>
           place_task data st task = Inr (st\<lparr>st_errors := st_errors st @
                [\<lparr>m_subject = t_subject task, m_type = t_type task,
                  m_teacher = t_teacher task, m_reason = NoCommonFreeTime\<rparr>]\<rparr>)"
proof -
  show "avail data st task \<noteq> [] \<longrightarrow>
           sort_reverse_by (score data st (t_teacher task)) (avail data st task) = Inl KeyError
           \<and> place_task data st task = Inl KeyError"
  proof
    assume "avail data st task \<noteq> []"
    then obtain slot rest where "avail data st task = slot # rest"
      by (cases "avail data st task") auto
    then have "sort_reverse_by (score data st (t_teacher task)) (avail data st task) = Inl KeyError"
      using score_unknown[OF assms] by (simp add: sort_reverse_by_def)
    then show "sort_reverse_by (score data st (t_teacher task)) (avail data st task) = Inl KeyError
           \<and> place_task data st task = Inl KeyError"
      by (simp add: place_task_def)
  qed
  show "avail data st task = [] \<longrightarrow>
           place_task data st task = Inr (st\<lparr>st_errors := st_errors st @
                [\<lparr>m_subject = t_subject task, m_type = t_type task,
                  m_teacher = t_teacher task, m_reason = NoCommonFreeTime\<rparr>]\<rparr>)"
    by (simp add: place_task_def sort_reverse_by_def sort_reverse_def)
qed

subsection \<open>The order of the tasks\<close>

lemma sort_reverse_unique:
  assumes "mset ys = mset xs"
    and "\<And>k. filter (\<lambda>x. f x = k) ys = filter (\<lambda>x. f x = k) xs"
    and "sorted_wrt (\<lambda>a b. f b \<le> f a) ys"
  shows "ys = sort_reverse f xs"
proof -
  have m: "mset (rev ys) = mset (rev xs)" using assms(1) by simp
  have st: "filter (\<lambda>x. f k = f x) (rev ys) = filter (\<lambda>x. f k = f x) (rev xs)" for k
  proof -
    have "(\<lambda>x. f k = f x) = (\<lambda>x. f x = f k)" by auto
    then show ?thesis using assms(2)[of "f k"] by (simp add: rev_filter[symmetric])
  qed
  have "sorted_wrt (\<lambda>a b. f a \<le> f b) (rev ys)"
    using assms(3) by (simp add: sorted_wrt_rev)
  then have so: "sorted (map f (rev ys))" by (simp add: sorted_map)
  have "sort_key f (rev xs) = rev ys"
    by (rule properties_for_sort_key[OF m _ so]) (rule st)
  then show ?thesis by (simp add: sort_reverse_def)
qed

lemma lecture_before_seminar:
  assumes "sorted_wrt (\<lambda>a b. task_key data b \<le> task_key data a) xs"
    and "i < length xs" "j < length xs"
    and "t_type (xs ! i) = ''lecture''" "t_type (xs ! j) \<noteq> ''lecture''"
  shows "i < j"
proof (rule ccontr)
  assume "\<not> i < j"
  with assms(4,5) have "j < i" by (cases "i = j") auto
  with assms(1,2) have "task_key data (xs ! i) \<le> task_key data (xs ! j)"
    by (simp add: sorted_wrt_iff_nth_less)
  with assms(4,5) show False by (simp add: task_key_def less_eq_prod_def)
qed

subsection \<open>The largest room\<close>

lemma fold_max_Max:
  "fold (\<lambda>r' acc. max acc (f r')) rs (a::int) = Max (insert a (f ` set rs))"
proof (induction rs arbitrary: a)
  case Nil
  then show ?case by simp
next
  case (Cons r rs)
  have "Max (insert (max a (f r)) (f ` set rs)) = Max (insert a (insert (f r) (f ` set rs)))"
    by (cases "f ` set rs = {}") (simp_all add: max.assoc)
  then show ?case by (simp add: Cons.IH)
qed

lemma max_cap_Max:
  "max_cap data =
     (if rooms data = [] then 0
      else if Max (r_capacity ` set (rooms data)) = 0 then 9999
      else Max (r_capacity ` set (rooms data)))"
  by (cases "rooms data") (simp_all add: max_cap_def fold_max_Max Let_def)

subsection \<open>The expansion of the assignments\<close>

lemma append_times_replicate: "append_times n t tasks = tasks @ replicate (nat n) t"
proof -
  have "fold (\<lambda>_ acc. acc @ [t]) [0..<k] tasks = tasks @ replicate k t" for k
    by (induction k) (simp_all add: replicate_append_same)
  then show ?thesis by (simp add: append_times_def)
qed

lemma fold_append_concat:
  "fold (\<lambda>x acc. acc @ f x) xs tasks = tasks @ concat (map f xs)"
  by (induction xs arbitrary: tasks) simp_all

lemma stream_loop_first_fit:
  assumes "cur = [] \<longrightarrow> tot = 0"
  shows "(case fold (stream_step data) gs (cur, tot, streams) of
            (c, n, s) \<Rightarrow> if c \<noteq> [] then s @ [c] else s)
       = streams @ first_fit (group_size data) (max_cap data) cur tot gs"
  using assms
proof (induction gs arbitrary: cur tot streams)
  case Nil
  then show ?case by simp
next
  case (Cons g gs)
  show ?case
  proof (cases "group_size data g > max_cap data")
    case True
    then have "stream_step data g (cur, tot, streams) = (cur, tot, streams @ [[g]])"
      by (simp add: stream_step_def)
    with Cons.IH[OF Cons.prems, of "streams @ [[g]]"] True show ?thesis by simp
  next
    case False
    show ?thesis
    proof (cases "tot + group_size data g \<le> max_cap data")
      case True
      with False have "stream_step data g (cur, tot, streams)
          = (cur @ [g], tot + group_size data g, streams)"
        by (simp add: stream_step_def)
      with Cons.IH[of "cur @ [g]" "tot + group_size data g" streams] True False
      show ?thesis by simp
    next
      case over: False
      with False Cons.prems have ne: "cur \<noteq> []" by auto
      with over False have "stream_step data g (cur, tot, streams)
          = ([g], group_size data g, streams @ [cur])"
        by (simp add: stream_step_def)
      with Cons.IH[of "[g]" "group_size data g" "streams @ [cur]"] over False
      show ?thesis by simp
    qed
  qed
qed

subsection \<open>The used time indices are those of the schedule\<close>

lemma used_indices_Nil: "used_indices data [] t d = {}"
  by (simp add: used_indices_def)

lemma used_indices_snoc:
  assumes "slot_map data (e_slot e) = Some info"
  shows "used_indices data (sched @ [e]) t d =
     (if e_teacher e = t \<and> day info = d then insert (time_idx info) (used_indices data sched t d)
      else used_indices data sched t d)"
  using assms by (auto simp: used_indices_def)

lemma inv_daily_init: "inv_daily data (init_state data)"
  by (auto simp: inv_daily_def init_state_def used_indices_Nil split: if_splits)

lemma inv_daily_place_task:
  assumes "inv_daily data st" "place_task data st task = Inr st'"
  shows "inv_daily data st'"
proof (rule place_task_invariant[where P = "inv_daily data", OF assms(2)])
  fix slot target
  assume co: "commit data st task slot target = Inr st'"
  from co show "inv_daily data st'"
  proof (rule commit_Inr)
    fix info :: SlotInfo and daily :: "string \<rightharpoonup> nat set" and exist :: "nat set"
    assume sm: "slot_map data slot = Some info"
      and td: "teacher_daily st (t_teacher task) = Some daily"
      and ex: "daily (day info) = Some exist"
      and td': "teacher_daily st' =
       (teacher_daily st)(t_teacher task \<mapsto> daily(day info \<mapsto> insert (time_idx info) exist))"
      and sc: "st_schedule st' = st_schedule st @
       [\<lparr>e_slot = slot, e_day = day info, e_teacher = t_teacher task,
         e_groups = t_groups task, e_subject = t_subject task,
         e_room = target, e_type = t_type task\<rparr>]"
    let ?e = "\<lparr>e_slot = slot, e_day = day info, e_teacher = t_teacher task,
         e_groups = t_groups task, e_subject = t_subject task,
         e_room = target, e_type = t_type task\<rparr>"
    have sm': "slot_map data (e_slot ?e) = Some info" using sm by simp
    note snoc = used_indices_snoc[OF sm', of "st_schedule st"]
    from assms(1) td ex have old: "exist = used_indices data (st_schedule st) (t_teacher task) (day info)"
      by (simp add: inv_daily_def)
    show ?thesis
      unfolding inv_daily_def
    proof (intro allI impI)
      fix t daily' d exist'
      assume a: "teacher_daily st' t = Some daily'" and b: "daily' d = Some exist'"
      show "exist' = used_indices data (st_schedule st') t d"
      proof (cases "t = t_teacher task")
        case True
        with a td' have d': "daily' = daily(day info \<mapsto> insert (time_idx info) exist)" by simp
        show ?thesis
        proof (cases "d = day info")
          case same: True
          with d' b have "exist' = insert (time_idx info) exist" by simp
          with old True same show ?thesis by (simp add: sc snoc)
        next
          case other: False
          with d' b have "daily d = Some exist'" by simp
          with assms(1) td have "exist' = used_indices data (st_schedule st) (t_teacher task) d"
            by (simp add: inv_daily_def)
          with True other show ?thesis by (simp add: sc snoc)
        qed
      next
        case False
        with a td' have "teacher_daily st t = Some daily'" by simp
        with assms(1) b have "exist' = used_indices data (st_schedule st) t d"
          by (simp add: inv_daily_def)
        with False show ?thesis by (simp add: sc snoc)
      qed
    qed
  qed
next
  fix m show "inv_daily data (st\<lparr>st_errors := st_errors st @ [m]\<rparr>)"
    using assms(1) by (simp add: inv_daily_def)
qed

lemma inv_daily_place_all:
  assumes "place_all data (init_state data) ts = Inr st"
  shows "inv_daily data st"
  by (rule place_all_invariant[where P = "inv_daily data", OF assms inv_daily_init])
     (rule inv_daily_place_task)

subsection \<open>The score\<close>

lemma Min_image_eq_iff:
  assumes "finite S" "S \<noteq> {}"
  shows "Min ((\<lambda>e. \<bar>int i - int e\<bar>) ` S) = k \<longleftrightarrow> min_distance_is S i k"
proof -
  have f: "finite ((\<lambda>e. \<bar>int i - int e\<bar>) ` S)" "(\<lambda>e. \<bar>int i - int e\<bar>) ` S \<noteq> {}"
    using assms by simp_all
  show ?thesis
    unfolding Min_eq_iff[OF f] min_distance_is_def by auto
qed

lemma score_gap_score:
  assumes "slot_map data slot = Some info" "teacher_daily st t = Some daily"
    "daily (day info) = Some exist" "finite exist"
  shows "score data st t slot = Inr (gap_score exist (time_idx info))"
proof (cases "exist = {}")
  case True
  with assms show ?thesis by (simp add: score_def gap_score_def)
next
  case False
  note m = Min_image_eq_iff[OF assms(4) False, of "time_idx info"]
  show ?thesis
    using assms(1,2,3) False m[of 1] m[of 2]
    by (simp add: score_def gap_score_def Let_def)
qed

lemma sort_candidates:
  assumes "sort_reverse_by (score data st (t_teacher task)) (avail data st task) = Inr av"
  shows "mset av = mset (avail data st task)"
    and "sorted_wrt (\<lambda>a b. projr (score data st (t_teacher task) b)
                            \<le> projr (score data st (t_teacher task) a)) av"
    and "filter (\<lambda>s. score data st (t_teacher task) s = Inr k) av
       = filter (\<lambda>s. s \<in> set (avail data st task) \<and> score data st (t_teacher task) s = Inr k)
           (slots data)"
proof -
  let ?sc = "score data st (t_teacher task)"
  from sort_reverse_by_Inr[OF assms]
  have tot: "\<forall>x\<in>set (avail data st task). \<exists>k. ?sc x = Inr k"
    and av: "av = sort_reverse (\<lambda>x. projr (?sc x)) (avail data st task)" by simp_all
  show "mset av = mset (avail data st task)" by (simp add: av mset_sort_reverse)
  show "sorted_wrt (\<lambda>a b. projr (?sc b) \<le> projr (?sc a)) av"
    unfolding av by (rule sorted_sort_reverse)
  have eq: "?sc x = Inr k \<longleftrightarrow> projr (?sc x) = k" if "x \<in> set (avail data st task)" for x
    using tot that by auto
  have "filter (\<lambda>s. ?sc s = Inr k) av = filter (\<lambda>s. projr (?sc s) = k) av"
    by (rule filter_cong) (simp_all add: av set_sort_reverse eq)
  also have "\<dots> = filter (\<lambda>s. projr (?sc s) = k) (avail data st task)"
    unfolding av by (rule sort_reverse_stable)
  also have "\<dots> = filter (\<lambda>s. ?sc s = Inr k) (avail data st task)"
    by (rule filter_cong) (simp_all add: eq)
  also have "\<dots> = filter (\<lambda>s. s \<in> set (avail data st task) \<and> ?sc s = Inr k) (slots data)"
    unfolding avail_def filter_filter
    by (rule filter_cong) auto
  finally show "filter (\<lambda>s. ?sc s = Inr k) av
       = filter (\<lambda>s. s \<in> set (avail data st task) \<and> ?sc s = Inr k) (slots data)" .
qed

lemma score_reachable:
  assumes "place_all data (init_state data) ts = Inr st" "t \<in> set (teachers data)"
    "slot \<in> set (slots data)"
  shows "\<exists>info. slot_map data slot = Some info
       \<and> score data st t slot =
           Inr (gap_score (used_indices data (st_schedule st) t (day info)) (time_idx info))"
proof -
  from slot_map_defined[OF assms(3)] obtain info where
    info: "slot_map data slot = Some info" "day info \<in> set (days data)" by blast
  from inv_td_lookup[OF inv_td_place_all[OF assms(1)] assms(2) info(2)] obtain daily exist where
    d: "teacher_daily st t = Some daily" "daily (day info) = Some exist" "finite exist" by blast
  from inv_daily_place_all[OF assms(1)] d
  have "exist = used_indices data (st_schedule st) t (day info)" by (simp add: inv_daily_def)
  with score_gap_score[OF info(1) d] info(1) show ?thesis by simp
qed

subsection \<open>The choice of the room\<close>








subsection \<open>The slots of the entries\<close>

lemma place_all_slots:
  assumes "place_all data (init_state data) ts = Inr st" "e \<in> set (st_schedule st)"
  shows "e_slot e \<in> set (slots data)"
  using inv_occ_place_all[OF assms(1)] assms(2) by (simp add: inv_occ_def)

lemma index_of_less:
  assumes "x \<in> set xs"
  shows "index_of xs x < length xs \<and> xs ! index_of xs x = x"
  using assms by (induction xs) auto

lemma schedule_sorted:
  assumes "generate_schedule data = Inr r"
  shows "sorted (map (\<lambda>x. index_of (slots data) (e_slot x)) (schedule r))"
  using assms by (cases rule: generate_schedule_cases) simp_all

subsection \<open>The busy lists of the teachers\<close>

lemma inv_busy_place_task:
  assumes "inv_busy data st" "place_task data st task = Inr st'"
  shows "inv_busy data st'"
proof (rule place_task_invariant[where P = "inv_busy data", OF assms(2)])
  fix slot target
  assume sl: "slot \<in> set (avail data st task)"
    and co: "commit data st task slot target = Inr st'"
  note av = avail_member[OF sl]
  from co show "inv_busy data st'"
  proof (rule commit_Inr)
    fix info :: SlotInfo
    assume "st_schedule st' = st_schedule st @
       [\<lparr>e_slot = slot, e_day = day info, e_teacher = t_teacher task,
         e_groups = t_groups task, e_subject = t_subject task,
         e_room = target, e_type = t_type task\<rparr>]"
    then show ?thesis using assms(1) av(4) by (auto simp: inv_busy_def)
  qed
next
  fix m show "inv_busy data (st\<lparr>st_errors := st_errors st @ [m]\<rparr>)"
    using assms(1) by (simp add: inv_busy_def)
qed

lemma inv_busy_place_all:
  assumes "place_all data (init_state data) ts = Inr st"
  shows "inv_busy data st"
proof (rule place_all_invariant[where P = "inv_busy data", OF assms])
  show "inv_busy data (init_state data)" by (simp add: inv_busy_def init_state_def)
qed (rule inv_busy_place_task)

subsection \<open>Runs of the concrete requests\<close>

lemma two_teachers_run: "generate_schedule two_teachers = Inr two_teachers_response"
  by code_simp

lemma three_tasks_run: "generate_schedule three_tasks = Inr three_tasks_response"
  by code_simp

lemma three_tasks_slots: "slots three_tasks = [''Mon 9'']"
  by code_simp

lemma three_tasks_build: "length (build_tasks three_tasks) = 3"
  by code_simp

lemma no_days_run: "generate_schedule no_days =
    Inr \<lparr>status = ''error'', message = Some NoDaysOrTimes, schedule = [], errors = []\<rparr>"
  by code_simp

lemma unknown_teacher_run: "generate_schedule unknown_teacher = Inl KeyError"
  by code_simp

lemma unknown_teacher_slots: "slots unknown_teacher = [''Mon 9'']"
  by code_simp

lemma busy_unknown_run: "generate_schedule busy_unknown_teacher = Inr busy_unknown_response"
  by code_simp

lemma busy_unknown_tasks: "build_tasks busy_unknown_teacher =
   [\<lparr>t_teacher = ''T'', t_groups = [''G1''], t_subject = ''S'', t_type = ''seminar''\<rparr>]"
  by code_simp

lemma three_tasks_avail: "avail three_tasks (init_state three_tasks) lecture_task = [''Mon 9'']"
  by code_simp

lemma three_tasks_pick: "pick_room three_tasks (init_state three_tasks) lecture_task ''Mon 9'' = None"
  by code_simp

lemma three_tasks_score: "score three_tasks (init_state three_tasks) ''T'' ''Mon 9'' = Inr 10"
  by code_simp

lemma three_tasks_place:
  "place_task three_tasks (init_state three_tasks) lecture_task =
     Inr ((init_state three_tasks)\<lparr>st_errors :=
            [\<lparr>m_subject = ''L'', m_type = ''lecture'', m_teacher = ''T'',
              m_reason = NoRoomOfCapacity\<rparr>]\<rparr>)"
proof -
  have t: "t_teacher lecture_task = ''T''" by (simp add: lecture_task_def)
  have "sort_reverse_by (score three_tasks (init_state three_tasks) ''T'') [''Mon 9'']
      = Inr [''Mon 9'']"
    by (simp add: sort_reverse_by_def sort_reverse_def three_tasks_score)
  then show ?thesis
    by (simp add: place_task_def t three_tasks_avail three_tasks_pick)
       (simp add: lecture_task_def init_state_def)
qed

lemma three_tasks_teachers:
  "\<forall>t\<in>set (build_tasks three_tasks). t_teacher t \<in> set (teachers three_tasks)"
  by code_simp

lemma no_days_slots: "slots no_days = []"
  by code_simp

lemma unknown_teacher_avail:
  "avail unknown_teacher (init_state unknown_teacher) unknown_task = [''Mon 9'']"
  by code_simp

lemma busy_unknown_avail:
  "avail busy_unknown_teacher (init_state busy_unknown_teacher) unknown_task = []"
  by code_simp

lemma busy_unknown_slots: "slots busy_unknown_teacher = [''Mon 9'']"
  by code_simp

lemma unknown_teacher_absent: "t_teacher unknown_task \<notin> set (teachers unknown_teacher)"
  by code_simp

lemma busy_unknown_absent: "t_teacher unknown_task \<notin> set (teachers busy_unknown_teacher)"
  by code_simp

lemma unknown_teacher_assignment:
  "\<exists>a\<in>set (assignments unknown_teacher). a_teacher a \<notin> set (teachers unknown_teacher)"
  by (simp add: unknown_teacher_def)

lemma three_tasks_built: "build_tasks three_tasks = [seminar_task, seminar_task, lecture_task]"
  by code_simp

lemma three_tasks_types:
  "\<forall>a\<in>set (assignments three_tasks). a_type a = ''seminar'' \<or> a_type a = ''lecture''"
  by (simp add: three_tasks_def)

lemma four_times_placed:
  "place_all four_times (init_state four_times) [four_times_task] = Inr four_times_state"
proof -
  have "\<forall>t\<in>set [four_times_task]. t_teacher t \<in> set (teachers four_times)"
    by (simp add: four_times_task_def four_times_def)
  from place_all_known[OF inv_td_init this] show ?thesis
    by (auto simp: four_times_state_def)
qed

lemma four_times_schedule:
  "st_schedule four_times_state =
     [\<lparr>e_slot = ''Mon 9'', e_day = ''Mon'', e_teacher = ''T'', e_groups = [''G1''],
       e_subject = ''S'', e_room = ''R'', e_type = ''seminar''\<rparr>]"
  by code_simp

lemma four_times_scores:
  "score four_times four_times_state ''T'' ''Mon 10'' = Inr 100"
  "score four_times four_times_state ''T'' ''Mon 11'' = Inr (- 50)"
  "score four_times four_times_state ''T'' ''Mon 12'' = Inr 0"
  "score four_times four_times_state ''T'' ''Tue 9'' = Inr 10"
  by code_simp+

lemma four_times_sorted:
  "sort_reverse_by (score four_times four_times_state (t_teacher four_times_task))
      (avail four_times four_times_state four_times_task)
   = Inr [''Mon 10'', ''Tue 9'', ''Tue 10'', ''Tue 11'', ''Tue 12'', ''Mon 12'', ''Mon 11'']"
  by code_simp

lemma four_times_facts:
  "''T'' \<in> set (teachers four_times)"
  "''Mon 10'' \<in> set (slots four_times)"
  "slot_map four_times ''Mon 10'' = Some \<lparr>day = ''Mon'', time_idx = 1\<rparr>"
  "used_indices four_times (st_schedule four_times_state) ''T'' ''Mon'' = {0}"
  by code_simp+

lemma gap_score_values:
  "gap_score {} 0 = 10" "gap_score {0} 1 = 100" "gap_score {0} 2 = - 50" "gap_score {0} 3 = 0"
  by (simp_all add: gap_score_def min_distance_is_def)








lemma busy_teacher_run: "generate_schedule busy_teacher = Inr busy_teacher_response"
  by code_simp

lemma empty_room_name_run:
  "generate_schedule empty_room_name =
     Inr \<lparr>status = ''success'', message = None, schedule = [],
          errors = [\<lparr>m_subject = ''L'', m_type = ''lecture'', m_teacher = ''T'',
                     m_reason = NoRoomOfCapacity\<rparr>]\<rparr>"
  by code_simp

subsection \<open>The code's tables and sorts are those of the specification\<close>

lemma map_of_rev_lookup_last: "map_of (rev xs) k = lookup_last xs k"
proof (induction xs)
  case Nil
  then show ?case by simp
next
  case (Cons p xs)
  obtain k' v where p: "p = (k', v)" by (cases p)
  show ?case using Cons by (simp add: p map_add_def split: option.splits)
qed

lemma group_size_spec: "group_size data g = spec_size data g"
  by (simp add: group_size_def group_sizes_def spec_size_def rev_map[symmetric]
        map_of_rev_lookup_last)

lemma group_size_spec_fun: "group_size data = spec_size data"
  by (rule ext) (rule group_size_spec)

lemma stud_count_spec: "stud_count data gs = spec_enrollment data gs"
  by (simp add: stud_count_def spec_enrollment_def group_size_spec_fun)



lemma max_cap_spec:
  "rooms data \<noteq> [] \<Longrightarrow> Max (r_capacity ` set (rooms data)) \<noteq> 0
     \<Longrightarrow> spec_bound data = Some (max_cap data)"
  by (simp add: max_cap_Max spec_bound_def)

lemma max_cap_zero:
  assumes "rooms data \<noteq> []" "Max (r_capacity ` set (rooms data)) = 0"
  shows "max_cap data = 9999" "spec_bound data = None"
  using assms by (simp_all add: max_cap_Max spec_bound_def)

lemma set_insert_desc: "set (insert_desc f x ys) = insert x (set ys)"
  by (induction ys) auto

lemma mset_insert_desc: "mset (insert_desc f x ys) = add_mset x (mset ys)"
  by (induction ys) auto

lemma sorted_insert_desc:
  "sorted_wrt (\<lambda>a b. f b \<le> f a) ys \<Longrightarrow> sorted_wrt (\<lambda>a b. f b \<le> f a) (insert_desc f x ys)"
  by (induction ys) (auto simp: set_insert_desc)

lemma filter_insert_desc:
  "filter (\<lambda>y. f y = k) (insert_desc f x ys)
     = (if f x = k then x # filter (\<lambda>y. f y = k) ys else filter (\<lambda>y. f y = k) ys)"
  by (induction ys) auto

lemma mset_spec_sort_desc: "mset (spec_sort_desc f xs) = mset xs"
  by (induction xs) (simp_all add: mset_insert_desc)

lemma sorted_spec_sort_desc: "sorted_wrt (\<lambda>a b. f b \<le> f a) (spec_sort_desc f xs)"
  by (induction xs) (simp_all add: sorted_insert_desc)

lemma filter_spec_sort_desc:
  "filter (\<lambda>y. f y = k) (spec_sort_desc f xs) = filter (\<lambda>y. f y = k) xs"
  by (induction xs) (simp_all add: filter_insert_desc)

lemma sort_reverse_spec: "sort_reverse f xs = spec_sort_desc f xs"
  by (rule sort_reverse_unique[symmetric])
     (simp_all add: mset_spec_sort_desc sorted_spec_sort_desc filter_spec_sort_desc)

subsection \<open>The expansion of the assignments, against the specification\<close>

lemma spec_walk_bounded:
  "spec_walk size_of (Some b) running running_total gs = first_fit size_of b running running_total gs"
  by (induction gs arbitrary: running running_total) (simp_all add: spec_within_def not_le)

lemma spec_walk_unbounded:
  assumes "\<forall>g\<in>set gs. 0 \<le> size_of g" "0 \<le> running_total"
    "running_total + sum_list (map size_of gs) \<le> b"
  shows "spec_walk size_of (Some b) running running_total gs
       = spec_walk size_of None running running_total gs"
  using assms
proof (induction gs arbitrary: running running_total)
  case Nil
  then show ?case by simp
next
  case (Cons g gs)
  from Cons.prems have r: "0 \<le> sum_list (map size_of gs)"
    by (intro sum_list_nonneg) auto
  from Cons.prems have g: "0 \<le> size_of g" by simp
  from Cons.prems r g have le: "running_total + size_of g \<le> b" "size_of g \<le> b" by simp_all
  from Cons.prems g have ih: "spec_walk size_of (Some b) (running @ [g]) (running_total + size_of g) gs
       = spec_walk size_of None (running @ [g]) (running_total + size_of g) gs"
    by (intro Cons.IH) (simp_all add: add.assoc)
  from le ih show ?case by (simp add: spec_within_def)
qed

lemma spec_streams_unbounded:
  assumes "\<forall>g\<in>set gs. 0 \<le> spec_size data g" "spec_enrollment data gs \<le> b"
  shows "spec_streams data (Some b) gs = spec_streams data None gs"
proof -
  let ?s = "spec_sort_desc (spec_size data) gs"
  have m: "mset ?s = mset gs" by (rule mset_spec_sort_desc)
  from m have "set ?s = set gs" by (rule mset_eq_setD)
  with assms(1) have a: "\<forall>g\<in>set ?s. 0 \<le> spec_size data g" by simp
  from m have "mset (map (spec_size data) ?s) = mset (map (spec_size data) gs)" by simp
  then have "sum_list (map (spec_size data) ?s) = sum_list (map (spec_size data) gs)"
    by (metis sum_mset_sum_list)
  with assms(2) have b: "0 + sum_list (map (spec_size data) ?s) \<le> b"
    by (simp add: spec_enrollment_def)
  show ?thesis unfolding spec_streams_def
    by (rule spec_walk_unbounded[OF a _ b]) simp
qed

lemma build_streams_spec: "build_streams data gs = spec_streams data (Some (max_cap data)) gs"
  using stream_loop_first_fit[of "[]" 0 data "sort_reverse (group_size data) gs" "[]"]
  by (simp add: build_streams_def spec_streams_def group_size_spec_fun sort_reverse_spec
        spec_walk_bounded)

lemma expand_assignment_eq:
  "expand_assignment data a tasks =
     tasks @ (if a_type a = ''seminar'' then spec_seminar_tasks a
              else spec_lecture_tasks data (Some (max_cap data)) a)"
  by (simp add: expand_assignment_def append_times_replicate fold_append_concat
        spec_seminar_tasks_def spec_lecture_tasks_def build_streams_spec)

lemma fold_expand:
  "fold (expand_assignment data) as tasks =
     tasks @ concat (map (\<lambda>a. if a_type a = ''seminar'' then spec_seminar_tasks a
                              else spec_lecture_tasks data (Some (max_cap data)) a) as)"
  by (induction as arbitrary: tasks) (simp_all add: expand_assignment_eq)

lemma build_tasks_any_type:
  "build_tasks data =
     concat (map (\<lambda>a. if a_type a = ''seminar'' then spec_seminar_tasks a
                       else spec_lecture_tasks data (Some (max_cap data)) a) (assignments data))"
  by (simp add: build_tasks_def fold_expand)

lemma build_tasks_spec_with:
  assumes "\<forall>a\<in>set (assignments data). a_type a = ''seminar'' \<or> a_type a = ''lecture''"
  shows "build_tasks data = spec_tasks_with data (Some (max_cap data))"
proof -
  have "map (\<lambda>a. if a_type a = ''seminar'' then spec_seminar_tasks a
                  else spec_lecture_tasks data (Some (max_cap data)) a) (assignments data)
      = map (spec_tasks_of data (Some (max_cap data))) (assignments data)"
    using assms by (intro map_cong) (auto simp: spec_tasks_of_def)
  then show ?thesis by (simp only: build_tasks_any_type spec_tasks_with_def)
qed

lemma spec_tasks_with_unbounded:
  assumes "\<forall>a\<in>set (assignments data). a_type a = ''lecture'' \<longrightarrow>
             (\<forall>g\<in>set (a_groups a). 0 \<le> spec_size data g)
             \<and> spec_enrollment data (a_groups a) \<le> b"
  shows "spec_tasks_with data (Some b) = spec_tasks_with data None"
proof -
  have "map (spec_tasks_of data (Some b)) (assignments data)
      = map (spec_tasks_of data None) (assignments data)"
    using assms
    by (intro map_cong) (auto simp: spec_tasks_of_def spec_lecture_tasks_def spec_streams_unbounded)
  then show ?thesis by (simp only: spec_tasks_with_def)
qed

lemma order_example_types:
  "\<forall>a\<in>set (assignments order_example). a_type a = ''seminar'' \<or> a_type a = ''lecture''"
  by (simp add: order_example_def)

lemma order_example_rooms:
  "rooms order_example \<noteq> []" "Max (r_capacity ` set (rooms order_example)) \<noteq> 0"
  by (simp_all add: order_example_def)

lemma order_example_spec: "spec_tasks order_example = order_example_tasks"
  by code_simp

lemma order_example_streams:
  "spec_bound order_example = Some 13"
  "spec_sort_desc (spec_size order_example) [''A'', ''B'', ''C''] = [''B'', ''C'', ''A'']"
  "spec_streams order_example (Some 13) [''A'', ''B'', ''C''] = [[''B'', ''C''], [''A'']]"
  "spec_walk (spec_size order_example) (Some 13) [] 0 [''A'', ''B'', ''C''] = [[''A'', ''B''], [''C'']]"
  by code_simp+

lemma zero_room_types:
  "\<forall>a\<in>set (assignments zero_room). a_type a = ''seminar'' \<or> a_type a = ''lecture''"
  "rooms zero_room \<noteq> []" "Max (r_capacity ` set (rooms zero_room)) = 0"
  "\<forall>a\<in>set (assignments zero_room). a_type a = ''lecture'' \<longrightarrow>
     (\<forall>g\<in>set (a_groups a). 0 \<le> spec_size zero_room g)
     \<and> spec_enrollment zero_room (a_groups a) \<le> 9999"
  "spec_bound zero_room = None"
  "spec_tasks zero_room =
     [\<lparr>t_teacher = ''T'', t_groups = [''G1'', ''G2''], t_subject = ''L'', t_type = ''lecture''\<rparr>]"
  by code_simp+

lemma no_rooms_tasks:
  "build_tasks no_rooms =
     [\<lparr>t_teacher = ''T'', t_groups = [''G1''], t_subject = ''L'', t_type = ''lecture''\<rparr>,
      \<lparr>t_teacher = ''T'', t_groups = [''G2''], t_subject = ''L'', t_type = ''lecture''\<rparr>]"
  "spec_tasks no_rooms =
     [\<lparr>t_teacher = ''T'', t_groups = [''G1'', ''G2''], t_subject = ''L'', t_type = ''lecture''\<rparr>]"
  by code_simp+

lemma zero_room_large_tasks:
  "build_tasks zero_room_large =
     [\<lparr>t_teacher = ''T'', t_groups = [''G1''], t_subject = ''L'', t_type = ''lecture''\<rparr>,
      \<lparr>t_teacher = ''T'', t_groups = [''G2''], t_subject = ''L'', t_type = ''lecture''\<rparr>]"
  "spec_tasks zero_room_large =
     [\<lparr>t_teacher = ''T'', t_groups = [''G1'', ''G2''], t_subject = ''L'', t_type = ''lecture''\<rparr>]"
  by code_simp+

subsection \<open>The key of the tasks, against the specification\<close>

lemma task_key_le: "task_key data b \<le> task_key data a \<longleftrightarrow> spec_precedes data a b"
  by (auto simp: task_key_def spec_precedes_def stud_count_spec less_eq_prod_def)

lemma task_key_eq: "task_key data b = task_key data a \<longleftrightarrow> spec_same_key data a b"
  by (auto simp: task_key_def spec_same_key_def stud_count_spec)

lemma sorted_tasks_precedes: "sorted_wrt (spec_precedes data) (sorted_tasks data)"
proof -
  have "sorted_wrt (\<lambda>a b. task_key data b \<le> task_key data a) (sorted_tasks data)"
    by (simp add: sorted_tasks_def sorted_sort_reverse)
  then show ?thesis by (simp add: task_key_le)
qed

lemma sorted_tasks_stable:
  "filter (spec_same_key data x) (sorted_tasks data) = filter (spec_same_key data x) (build_tasks data)"
proof -
  have "spec_same_key data x = (\<lambda>y. task_key data y = task_key data x)"
    by (rule ext) (simp add: task_key_eq)
  then show ?thesis by (simp add: sorted_tasks_def sort_reverse_stable)
qed

lemma sorted_tasks_unique:
  assumes "mset ys = mset (build_tasks data)"
    and "sorted_wrt (spec_precedes data) ys"
    and "\<forall>x. filter (spec_same_key data x) ys = filter (spec_same_key data x) (build_tasks data)"
  shows "ys = sorted_tasks data"
  unfolding sorted_tasks_def
proof (rule sort_reverse_unique[OF assms(1)])
  show "sorted_wrt (\<lambda>a b. task_key data b \<le> task_key data a) ys"
    using assms(2) by (simp add: task_key_le)
next
  fix k
  show "filter (\<lambda>x. task_key data x = k) ys = filter (\<lambda>x. task_key data x = k) (build_tasks data)"
  proof (cases "\<exists>x. task_key data x = k")
    case True
    then obtain x where x: "task_key data x = k" by blast
    have "spec_same_key data x = (\<lambda>y. task_key data y = k)"
      by (rule ext) (simp add: task_key_eq[symmetric] x[symmetric])
    with assms(3) show ?thesis by metis
  next
    case False
    then show ?thesis by simp
  qed
qed

lemma precedes_lecture_first:
  assumes "sorted_wrt (spec_precedes data) xs"
    and "i < length xs" "j < length xs"
    and "t_type (xs ! i) = ''lecture''" "t_type (xs ! j) \<noteq> ''lecture''"
  shows "i < j"
proof (rule ccontr)
  assume "\<not> i < j"
  with assms(4,5) have "j < i" by (cases "i = j") auto
  with assms(1,2) have "spec_precedes data (xs ! j) (xs ! i)"
    by (simp add: sorted_wrt_iff_nth_less)
  with assms(4,5) show False by (simp add: spec_precedes_def)
qed

lemma order_example_built: "build_tasks order_example = order_example_tasks"
  by code_simp

lemma order_example_sorted_run: "sorted_tasks order_example = order_example_sorted"
  by code_simp

lemma order_example_mset: "mset order_example_sorted = mset order_example_tasks"
  by code_simp

lemma order_example_precedes: "sorted_wrt (spec_precedes order_example) order_example_sorted"
  by code_simp

lemma order_example_keys:
  "length (t_groups (order_example_sorted ! 1)) = 2"
  "length (t_groups (order_example_sorted ! 2)) = 1"
  "spec_enrollment order_example (t_groups (order_example_sorted ! 1)) = 13"
  "spec_enrollment order_example (t_groups (order_example_sorted ! 3)) = 4"
  "spec_enrollment order_example (t_groups (order_example_sorted ! 4)) = 2"
  "spec_same_key order_example (order_example_sorted ! 5) (order_example_sorted ! 6)"
  "\<not> spec_precedes order_example (order_example_sorted ! 2) (order_example_sorted ! 1)"
  "\<not> spec_precedes order_example (order_example_sorted ! 4) (order_example_sorted ! 3)"
  "\<not> spec_precedes order_example (order_example_sorted ! 7) (order_example_sorted ! 6)"
  by code_simp+

lemma order_example_types_at:
  "t_type (order_example_sorted ! 4) = ''lecture''"
  "t_type (order_example_sorted ! 5) \<noteq> ''lecture''"
  "t_teacher (order_example_sorted ! 5) = ''T''"
  "t_teacher (order_example_sorted ! 6) = ''T2''"
  "length order_example_sorted = 8"
  by (simp_all add: order_example_sorted_def)

subsection \<open>The order of the candidate slots\<close>

lemma score_slot_score:
  assumes "place_all data (init_state data) ts = Inr st" "t \<in> set (teachers data)"
    "slot \<in> set (slots data)"
  shows "score data st t slot = Inr (slot_score data (st_schedule st) t slot)"
  using score_reachable[OF assms] by (auto simp: slot_score_def)

lemma sort_candidates_listed:
  assumes "place_all data (init_state data) ts = Inr st" "t_teacher task \<in> set (teachers data)"
  shows "\<exists>av. sort_reverse_by (score data st (t_teacher task)) (avail data st task) = Inr av
       \<and> mset av = mset (avail data st task)
       \<and> sorted_wrt (\<lambda>a b. slot_score data (st_schedule st) (t_teacher task) b
                              \<le> slot_score data (st_schedule st) (t_teacher task) a) av
       \<and> (\<forall>k. filter (\<lambda>s. slot_score data (st_schedule st) (t_teacher task) s = k) av
            = filter (\<lambda>s. s \<in> set (avail data st task)
                         \<and> slot_score data (st_schedule st) (t_teacher task) s = k) (slots data))"
proof -
  let ?g = "slot_score data (st_schedule st) (t_teacher task)"
  let ?av = "sort_reverse ?g (avail data st task)"
  have "\<forall>x\<in>set (avail data st task). score data st (t_teacher task) x = Inr (?g x)"
    using score_slot_score[OF assms] avail_subset by blast
  from sort_reverse_by_total[OF this]
  have s: "sort_reverse_by (score data st (t_teacher task)) (avail data st task) = Inr ?av" .
  have m: "mset ?av = mset (avail data st task)" by (rule mset_sort_reverse)
  have so: "sorted_wrt (\<lambda>a b. ?g b \<le> ?g a) ?av" by (rule sorted_sort_reverse)
  have st: "\<forall>k. filter (\<lambda>s. ?g s = k) ?av
            = filter (\<lambda>s. s \<in> set (avail data st task) \<and> ?g s = k) (slots data)"
  proof
    fix k
    have "filter (\<lambda>s. ?g s = k) ?av = filter (\<lambda>s. ?g s = k) (avail data st task)"
      by (rule sort_reverse_stable)
    also have "\<dots> = filter (\<lambda>s. s \<in> set (avail data st task) \<and> ?g s = k) (slots data)"
      unfolding avail_def filter_filter
      by (rule filter_cong) auto
    finally show "filter (\<lambda>s. ?g s = k) ?av
            = filter (\<lambda>s. s \<in> set (avail data st task) \<and> ?g s = k) (slots data)" .
  qed
  from s m so st show ?thesis by blast
qed

lemma score_unlisted:
  assumes "place_all data (init_state data) ts = Inr st" "t \<notin> set (teachers data)"
  shows "score data st t slot = Inl KeyError"
  using inv_td_None[OF inv_td_place_all[OF assms(1)], of t] assms(2)
  by (simp add: score_unknown)

lemma four_times_listed: "t_teacher four_times_task \<in> set (teachers four_times)"
  by code_simp

lemma unknown_teacher_score:
  "slot_map unknown_teacher ''Mon 9'' = Some \<lparr>day = ''Mon'', time_idx = 0\<rparr>"
  "used_indices unknown_teacher (st_schedule (init_state unknown_teacher))
     (t_teacher unknown_task) ''Mon'' = {}"
  "score unknown_teacher (init_state unknown_teacher) (t_teacher unknown_task) ''Mon 9''
     = Inl KeyError"
  by code_simp+

subsection \<open>The scan of the free rooms, against the specification\<close>














section \<open>The claims\<close>

text \<open>
  C1 (no double booking). Whenever the solver returns, two entries of the returned schedule
  at different positions and with the same slot have different teachers, disjoint group
  sets and different rooms. This holds for every request, with or without slots.
\<close>

theorem no_double_booking:
  assumes "generate_schedule data = Inr r"
    and "i < length (schedule r)" "j < length (schedule r)" "i \<noteq> j"
    and "e_slot (schedule r ! i) = e_slot (schedule r ! j)"
  shows "e_teacher (schedule r ! i) \<noteq> e_teacher (schedule r ! j)
       \<and> set (e_groups (schedule r ! i)) \<inter> set (e_groups (schedule r ! j)) = {}
       \<and> e_room (schedule r ! i) \<noteq> e_room (schedule r ! j)"
proof -
  from schedule_no_clash[OF assms(1)]
  have s: "\<And>a b. a < b \<Longrightarrow> b < length (schedule r) \<Longrightarrow> no_clash (schedule r ! a) (schedule r ! b)"
    by (simp add: sorted_wrt_iff_nth_less)
  have "no_clash (schedule r ! i) (schedule r ! j)"
  proof (cases "i < j")
    case True
    then show ?thesis using s assms(3) by simp
  next
    case False
    with assms(4) have "j < i" by simp
    then have "no_clash (schedule r ! j) (schedule r ! i)" using s assms(2) by simp
    then show ?thesis by (rule no_clash_sym)
  qed
  with assms(5) show ?thesis by (simp add: no_clash_def)
qed

theorem no_double_booking_witness:
  "generate_schedule two_teachers = Inr two_teachers_response
   \<and> (0::nat) < length (schedule two_teachers_response)
   \<and> (1::nat) < length (schedule two_teachers_response)
   \<and> e_slot (schedule two_teachers_response ! 0) = e_slot (schedule two_teachers_response ! 1)
   \<and> e_teacher (schedule two_teachers_response ! 0) \<noteq> e_teacher (schedule two_teachers_response ! 1)
   \<and> set (e_groups (schedule two_teachers_response ! 0))
       \<inter> set (e_groups (schedule two_teachers_response ! 1)) = {}
   \<and> e_room (schedule two_teachers_response ! 0) \<noteq> e_room (schedule two_teachers_response ! 1)"
proof -
  have l: "(0::nat) < length (schedule two_teachers_response)"
      "(1::nat) < length (schedule two_teachers_response)" "(0::nat) \<noteq> 1"
      "e_slot (schedule two_teachers_response ! 0) = e_slot (schedule two_teachers_response ! 1)"
    by (simp_all add: two_teachers_response_def)
  from no_double_booking[OF two_teachers_run l] two_teachers_run l show ?thesis by simp
qed

text \<open>
  C2 (capacity safety). For every entry of a returned schedule, the capacity of its room
  is at least the sum of the sizes of its groups, where a room without a configured
  capacity and a room of capacity zero count as unbounded. The second conjunct is the
  test the code makes: the unbounded cases are the bound 9999.
\<close>

theorem capacity_safety:
  assumes "generate_schedule data = Inr r" and "e \<in> set (schedule r)"
  shows "(case room_caps data (e_room e) of
            None \<Rightarrow> True
          | Some c \<Rightarrow> c = 0 \<or> stud_count data (e_groups e) \<le> c)
       \<and> fits data (stud_count data (e_groups e)) (e_room e)"
  using assms(1)
proof (cases rule: generate_schedule_cases)
  case 1
  with assms(2) show ?thesis by simp
next
  case (2 st)
  from assms(2) 2(3) have "e \<in> set (st_schedule st)" by simp
  with inv_cap_place_all[OF 2(2)] have f: "fits data (stud_count data (e_groups e)) (e_room e)"
    by (simp add: inv_cap_def)
  then show ?thesis
    by (auto simp: fits_def room_cap_def split: option.splits if_splits)
qed

theorem capacity_safety_witness:
  "generate_schedule two_teachers = Inr two_teachers_response
   \<and> schedule two_teachers_response ! 0 \<in> set (schedule two_teachers_response)
   \<and> room_caps two_teachers (e_room (schedule two_teachers_response ! 0)) = Some 10
   \<and> stud_count two_teachers (e_groups (schedule two_teachers_response ! 0)) = 8
   \<and> fits two_teachers (stud_count two_teachers (e_groups (schedule two_teachers_response ! 0)))
        (e_room (schedule two_teachers_response ! 0))"
proof -
  have m: "schedule two_teachers_response ! 0 \<in> set (schedule two_teachers_response)"
    by (simp add: two_teachers_response_def)
  have c: "room_caps two_teachers (e_room (schedule two_teachers_response ! 0)) = Some 10"
    by code_simp
  have n: "stud_count two_teachers (e_groups (schedule two_teachers_response ! 0)) = 8"
    by code_simp
  from capacity_safety[OF two_teachers_run m] two_teachers_run m c n show ?thesis by simp
qed

text \<open>
  C3 (status of the result), as amended. The slot list is empty exactly when the day list
  or the time list is empty, and then the operation returns the error response with an
  empty schedule and no diagnostics. With a slot, every response that is returned has the
  status success, whatever was placed, and a response is returned whenever the teacher of
  every expanded task is in the list of teachers. The claim as stated promises a status
  in every other case; the request \<open>unknown_teacher\<close> has a slot and ends in
  \<^verbatim>\<open>KeyError\<close>.
\<close>

theorem status_of_result:
  "(slots data = [] \<longleftrightarrow> days data = [] \<or> times_list data = [])
   \<and> (slots data = [] \<longrightarrow>
        generate_schedule data =
          Inr \<lparr>status = ''error'', message = Some NoDaysOrTimes, schedule = [], errors = []\<rparr>)
   \<and> (slots data \<noteq> [] \<longrightarrow> (\<forall>r. generate_schedule data = Inr r \<longrightarrow> status r = ''success''))
   \<and> (slots data \<noteq> [] \<longrightarrow> (\<forall>t\<in>set (build_tasks data). t_teacher t \<in> set (teachers data)) \<longrightarrow>
        (\<exists>r. generate_schedule data = Inr r \<and> status r = ''success''))"
proof (intro conjI impI allI)
  show "slots data = [] \<longleftrightarrow> days data = [] \<or> times_list data = []"
    by (rule slots_empty_iff)
next
  assume "slots data = []"
  then show "generate_schedule data =
          Inr \<lparr>status = ''error'', message = Some NoDaysOrTimes, schedule = [], errors = []\<rparr>"
    by (simp add: generate_schedule_def)
next
  fix r assume "slots data \<noteq> []" "generate_schedule data = Inr r"
  then show "status r = ''success''"
    by (auto simp: generate_schedule_def split: sum.splits)
next
  assume ne: "slots data \<noteq> []"
    and "\<forall>t\<in>set (build_tasks data). t_teacher t \<in> set (teachers data)"
  from generate_schedule_known[OF this(2)] obtain r where r: "generate_schedule data = Inr r"
    by blast
  with ne have "status r = ''success''"
    by (auto simp: generate_schedule_def split: sum.splits)
  with r show "\<exists>r. generate_schedule data = Inr r \<and> status r = ''success''" by blast
qed

theorem status_of_result_witness:
  "slots no_days = []
   \<and> generate_schedule no_days =
        Inr \<lparr>status = ''error'', message = Some NoDaysOrTimes, schedule = [], errors = []\<rparr>
   \<and> slots three_tasks \<noteq> []
   \<and> generate_schedule three_tasks = Inr three_tasks_response
   \<and> status three_tasks_response = ''success''
   \<and> length (errors three_tasks_response) = 2"
proof -
  have s: "slots three_tasks \<noteq> []" by (simp add: three_tasks_slots)
  from status_of_result[of no_days] no_days_slots
  have a: "generate_schedule no_days =
        Inr \<lparr>status = ''error'', message = Some NoDaysOrTimes, schedule = [], errors = []\<rparr>"
    by blast
  from status_of_result[of three_tasks] s three_tasks_teachers
  have "\<exists>r. generate_schedule three_tasks = Inr r \<and> status r = ''success''" by blast
  with three_tasks_run have b: "status three_tasks_response = ''success''" by simp
  have c: "length (errors three_tasks_response) = 2" by (simp add: three_tasks_response_def)
  from no_days_slots a s three_tasks_run b c show ?thesis by simp
qed

theorem status_counterexample:
  "slots unknown_teacher \<noteq> [] \<and> generate_schedule unknown_teacher = Inl KeyError"
  by (simp add: unknown_teacher_slots unknown_teacher_run)

text \<open>
  C4 (the bound of the stream packer). The code computes \<open>max_cap\<close> as 0 when there are
  no rooms, as 9999 when the largest capacity is zero, and as the largest capacity
  otherwise. With no rooms and two lecture groups of size 5 each group becomes a stream of
  its own, where the claim promises one merged stream; with one room of capacity zero
  the two groups are merged.
\<close>

theorem max_cap_no_rooms:
  "max_cap data =
     (if rooms data = [] then 0
      else if Max (r_capacity ` set (rooms data)) = 0 then 9999
      else Max (r_capacity ` set (rooms data)))
   \<and> rooms no_rooms = [] \<and> max_cap no_rooms = 0
   \<and> build_streams no_rooms [''G1'', ''G2''] = [[''G1''], [''G2'']]
   \<and> build_tasks no_rooms =
        [\<lparr>t_teacher = ''T'', t_groups = [''G1''], t_subject = ''L'', t_type = ''lecture''\<rparr>,
         \<lparr>t_teacher = ''T'', t_groups = [''G2''], t_subject = ''L'', t_type = ''lecture''\<rparr>]
   \<and> max_cap zero_room = 9999
   \<and> build_streams zero_room [''G1'', ''G2''] = [[''G1'', ''G2'']]"
proof -
  have a: "rooms no_rooms = []" by (simp add: no_rooms_def)
  have b: "max_cap no_rooms = 0" by code_simp
  have c: "build_streams no_rooms [''G1'', ''G2''] = [[''G1''], [''G2'']]" by code_simp
  have d: "build_tasks no_rooms =
        [\<lparr>t_teacher = ''T'', t_groups = [''G1''], t_subject = ''L'', t_type = ''lecture''\<rparr>,
         \<lparr>t_teacher = ''T'', t_groups = [''G2''], t_subject = ''L'', t_type = ''lecture''\<rparr>]"
    by code_simp
  have e: "max_cap zero_room = 9999" by code_simp
  have f: "build_streams zero_room [''G1'', ''G2''] = [[''G1'', ''G2'']]" by code_simp
  from max_cap_Max[of data] a b c d e f show ?thesis by (intro conjI)
qed

text \<open>
  C5 (task expansion). The reference algorithm \<open>spec_tasks\<close> is that of section 4.2: a
  seminar gives, for each group, \<open>count\<close> tasks of that one group; a lecture has its groups
  sorted by descending size and walked first-fit under the bound \<open>spec_bound\<close>, and each
  stream gives \<open>count\<close> tasks. For a request whose assignments are seminars and lectures,
  the code builds the tasks of the reference algorithm run with the code's own bound; so
  it builds \<open>spec_tasks\<close> when there is a room and the largest capacity is not zero, and
  also when the largest capacity is zero and no lecture has a negative group size or a
  total enrollment above 9999. The second conjunct holds for every request: the code
  takes every type other than seminar as a lecture. The code departs from the reference
  algorithm in \<open>no_rooms\<close>, where its bound is 0 and two groups of 5 students become two
  streams, and in \<open>zero_room_large\<close>, where its bound is 9999 and two groups of 6000
  students become two streams; the reference algorithm has no bound there and merges
  them.
\<close>

theorem task_expansion:
  "((\<forall>a\<in>set (assignments data). a_type a = ''seminar'' \<or> a_type a = ''lecture'') \<longrightarrow>
       build_tasks data = spec_tasks_with data (Some (max_cap data))
       \<and> (rooms data \<noteq> [] \<longrightarrow> Max (r_capacity ` set (rooms data)) \<noteq> 0 \<longrightarrow>
            build_tasks data = spec_tasks data)
       \<and> (rooms data \<noteq> [] \<longrightarrow> Max (r_capacity ` set (rooms data)) = 0 \<longrightarrow>
            (\<forall>a\<in>set (assignments data). a_type a = ''lecture'' \<longrightarrow>
               (\<forall>g\<in>set (a_groups a). 0 \<le> spec_size data g)
               \<and> spec_enrollment data (a_groups a) \<le> 9999) \<longrightarrow>
            build_tasks data = spec_tasks data))
   \<and> build_tasks data =
       concat (map (\<lambda>a. if a_type a = ''seminar'' then spec_seminar_tasks a
                         else spec_lecture_tasks data (Some (max_cap data)) a) (assignments data))
   \<and> build_tasks no_rooms =
       [\<lparr>t_teacher = ''T'', t_groups = [''G1''], t_subject = ''L'', t_type = ''lecture''\<rparr>,
        \<lparr>t_teacher = ''T'', t_groups = [''G2''], t_subject = ''L'', t_type = ''lecture''\<rparr>]
   \<and> spec_tasks no_rooms =
       [\<lparr>t_teacher = ''T'', t_groups = [''G1'', ''G2''], t_subject = ''L'', t_type = ''lecture''\<rparr>]
   \<and> build_tasks zero_room_large =
       [\<lparr>t_teacher = ''T'', t_groups = [''G1''], t_subject = ''L'', t_type = ''lecture''\<rparr>,
        \<lparr>t_teacher = ''T'', t_groups = [''G2''], t_subject = ''L'', t_type = ''lecture''\<rparr>]
   \<and> spec_tasks zero_room_large =
       [\<lparr>t_teacher = ''T'', t_groups = [''G1'', ''G2''], t_subject = ''L'', t_type = ''lecture''\<rparr>]"
proof -
  have a: "(\<forall>a\<in>set (assignments data). a_type a = ''seminar'' \<or> a_type a = ''lecture'') \<longrightarrow>
       build_tasks data = spec_tasks_with data (Some (max_cap data))
       \<and> (rooms data \<noteq> [] \<longrightarrow> Max (r_capacity ` set (rooms data)) \<noteq> 0 \<longrightarrow>
            build_tasks data = spec_tasks data)
       \<and> (rooms data \<noteq> [] \<longrightarrow> Max (r_capacity ` set (rooms data)) = 0 \<longrightarrow>
            (\<forall>a\<in>set (assignments data). a_type a = ''lecture'' \<longrightarrow>
               (\<forall>g\<in>set (a_groups a). 0 \<le> spec_size data g)
               \<and> spec_enrollment data (a_groups a) \<le> 9999) \<longrightarrow>
            build_tasks data = spec_tasks data)"
  proof
    assume t: "\<forall>a\<in>set (assignments data). a_type a = ''seminar'' \<or> a_type a = ''lecture''"
    note w = build_tasks_spec_with[OF t]
    have x: "rooms data \<noteq> [] \<longrightarrow> Max (r_capacity ` set (rooms data)) \<noteq> 0 \<longrightarrow>
            build_tasks data = spec_tasks data"
      by (simp add: w spec_tasks_def max_cap_spec)
    have y: "rooms data \<noteq> [] \<longrightarrow> Max (r_capacity ` set (rooms data)) = 0 \<longrightarrow>
            (\<forall>a\<in>set (assignments data). a_type a = ''lecture'' \<longrightarrow>
               (\<forall>g\<in>set (a_groups a). 0 \<le> spec_size data g)
               \<and> spec_enrollment data (a_groups a) \<le> 9999) \<longrightarrow>
            build_tasks data = spec_tasks data"
    proof (intro impI)
      assume r: "rooms data \<noteq> []" and z: "Max (r_capacity ` set (rooms data)) = 0"
        and s: "\<forall>a\<in>set (assignments data). a_type a = ''lecture'' \<longrightarrow>
               (\<forall>g\<in>set (a_groups a). 0 \<le> spec_size data g)
               \<and> spec_enrollment data (a_groups a) \<le> 9999"
      from w max_cap_zero[OF r z] spec_tasks_with_unbounded[OF s]
      show "build_tasks data = spec_tasks data" by (simp add: spec_tasks_def)
    qed
    from w x y show "build_tasks data = spec_tasks_with data (Some (max_cap data))
       \<and> (rooms data \<noteq> [] \<longrightarrow> Max (r_capacity ` set (rooms data)) \<noteq> 0 \<longrightarrow>
            build_tasks data = spec_tasks data)
       \<and> (rooms data \<noteq> [] \<longrightarrow> Max (r_capacity ` set (rooms data)) = 0 \<longrightarrow>
            (\<forall>a\<in>set (assignments data). a_type a = ''lecture'' \<longrightarrow>
               (\<forall>g\<in>set (a_groups a). 0 \<le> spec_size data g)
               \<and> spec_enrollment data (a_groups a) \<le> 9999) \<longrightarrow>
            build_tasks data = spec_tasks data)"
      by (intro conjI)
  qed
  from a build_tasks_any_type[of data] no_rooms_tasks zero_room_large_tasks
  show ?thesis by (intro conjI)
qed

theorem task_expansion_witness:
  "build_tasks order_example = spec_tasks order_example
   \<and> spec_tasks order_example = order_example_tasks
   \<and> spec_bound order_example = Some 13
   \<and> spec_streams order_example (Some 13) [''A'', ''B'', ''C''] = [[''B'', ''C''], [''A'']]
   \<and> spec_walk (spec_size order_example) (Some 13) [] 0 [''A'', ''B'', ''C'']
        = [[''A'', ''B''], [''C'']]
   \<and> spec_bound zero_room = None
   \<and> build_tasks zero_room = spec_tasks zero_room
   \<and> spec_tasks zero_room =
       [\<lparr>t_teacher = ''T'', t_groups = [''G1'', ''G2''], t_subject = ''L'', t_type = ''lecture''\<rparr>]"
proof -
  from task_expansion[of order_example] order_example_types order_example_rooms
  have a: "build_tasks order_example = spec_tasks order_example" by blast
  from task_expansion[of zero_room] zero_room_types(1,2,3,4)
  have b: "build_tasks zero_room = spec_tasks zero_room" by blast
  from a order_example_spec order_example_streams(1,3,4) zero_room_types(5) b zero_room_types(6)
  show ?thesis by (intro conjI)
qed

text \<open>
  C6 (the order of the tasks). The sorted task list is a permutation of the expanded
  tasks; it is descending in the composite key, stated here as the relation
  \<open>spec_precedes\<close>: a lecture before a task that is not one, then more groups first, then
  the larger total enrollment first; tasks whose three key components agree
  (\<open>spec_same_key\<close>) stand in their order of creation; so every lecture task stands before
  every task that is not a lecture. The order is determined by the input: any list with
  the first three properties is the sorted task list.
\<close>

theorem task_order:
  "mset (sorted_tasks data) = mset (build_tasks data)
   \<and> sorted_wrt (spec_precedes data) (sorted_tasks data)
   \<and> (\<forall>x. filter (spec_same_key data x) (sorted_tasks data)
          = filter (spec_same_key data x) (build_tasks data))
   \<and> (\<forall>i j. i < length (sorted_tasks data) \<longrightarrow> j < length (sorted_tasks data) \<longrightarrow>
          t_type (sorted_tasks data ! i) = ''lecture'' \<longrightarrow>
          t_type (sorted_tasks data ! j) \<noteq> ''lecture'' \<longrightarrow> i < j)
   \<and> (\<forall>ys. mset ys = mset (build_tasks data)
          \<and> sorted_wrt (spec_precedes data) ys
          \<and> (\<forall>x. filter (spec_same_key data x) ys = filter (spec_same_key data x) (build_tasks data))
          \<longrightarrow> ys = sorted_tasks data)"
proof -
  have a: "mset (sorted_tasks data) = mset (build_tasks data)"
    by (simp add: sorted_tasks_def mset_sort_reverse)
  note b = sorted_tasks_precedes[of data]
  have c: "\<forall>x. filter (spec_same_key data x) (sorted_tasks data)
          = filter (spec_same_key data x) (build_tasks data)"
    by (simp add: sorted_tasks_stable)
  have d: "\<forall>i j. i < length (sorted_tasks data) \<longrightarrow> j < length (sorted_tasks data) \<longrightarrow>
          t_type (sorted_tasks data ! i) = ''lecture'' \<longrightarrow>
          t_type (sorted_tasks data ! j) \<noteq> ''lecture'' \<longrightarrow> i < j"
    using precedes_lecture_first[OF b] by blast
  have e: "\<forall>ys. mset ys = mset (build_tasks data)
          \<and> sorted_wrt (spec_precedes data) ys
          \<and> (\<forall>x. filter (spec_same_key data x) ys = filter (spec_same_key data x) (build_tasks data))
          \<longrightarrow> ys = sorted_tasks data"
    using sorted_tasks_unique[of _ data] by blast
  from a b c d e show ?thesis by (intro conjI)
qed

theorem task_order_witness:
  "build_tasks order_example = order_example_tasks
   \<and> sorted_tasks order_example = order_example_sorted
   \<and> sorted_wrt (spec_precedes order_example) order_example_sorted
   \<and> t_type (order_example_sorted ! 4) = ''lecture''
   \<and> t_type (order_example_sorted ! 5) \<noteq> ''lecture'' \<and> (4::nat) < 5
   \<and> length (t_groups (order_example_sorted ! 1)) = 2
   \<and> length (t_groups (order_example_sorted ! 2)) = 1
   \<and> \<not> spec_precedes order_example (order_example_sorted ! 2) (order_example_sorted ! 1)
   \<and> spec_enrollment order_example (t_groups (order_example_sorted ! 3)) = 4
   \<and> spec_enrollment order_example (t_groups (order_example_sorted ! 4)) = 2
   \<and> \<not> spec_precedes order_example (order_example_sorted ! 4) (order_example_sorted ! 3)
   \<and> spec_same_key order_example (order_example_sorted ! 5) (order_example_sorted ! 6)
   \<and> t_teacher (order_example_sorted ! 5) = ''T''
   \<and> t_teacher (order_example_sorted ! 6) = ''T2''"
proof -
  note w = task_order[of order_example, unfolded order_example_sorted_run order_example_built]
  from w have so: "sorted_wrt (spec_precedes order_example) order_example_sorted" by blast
  have lt: "(4::nat) < 5" by simp
  from order_example_built order_example_sorted_run so order_example_types_at(1,2) lt
    order_example_keys(1,2,7,4,5,8,6) order_example_types_at(3,4)
  show ?thesis by (intro conjI)
qed

text \<open>
  C7 (scoring of the candidate slots), as amended: the claim holds for a task whose
  teacher is in the list of teachers. In every state the loop reaches, for a listed
  teacher and a slot of the grid, the score is \<open>gap_score\<close> of the time indices the
  teacher's entries already use on the day of the slot: 10 when there are none, 100 when
  the least distance to one is 1, -50 when it is 2, and 0 otherwise. For a task with a
  listed teacher the sort of the candidates returns a permutation of the candidates,
  descending in the score, with the candidates of one score in the order of the slot
  list. For a teacher that is not listed the score is not computed: the code raises
  \<^verbatim>\<open>KeyError\<close>. The claim as stated fails in \<open>unknown_teacher\<close>: the task has the
  candidate slot Mon 9, its teacher has no used index on that day, the rule gives 10,
  and the code raises.
\<close>

theorem slot_scoring:
  "(place_all data (init_state data) ts = Inr st \<longrightarrow> t \<in> set (teachers data) \<longrightarrow>
      slot \<in> set (slots data) \<longrightarrow>
      (\<exists>info. slot_map data slot = Some info
         \<and> score data st t slot =
             Inr (gap_score (used_indices data (st_schedule st) t (day info)) (time_idx info))
         \<and> slot_score data (st_schedule st) t slot =
             gap_score (used_indices data (st_schedule st) t (day info)) (time_idx info)))
   \<and> (place_all data (init_state data) ts = Inr st \<longrightarrow> t_teacher task \<in> set (teachers data) \<longrightarrow>
        (\<exists>av. sort_reverse_by (score data st (t_teacher task)) (avail data st task) = Inr av
           \<and> mset av = mset (avail data st task)
           \<and> sorted_wrt (\<lambda>a b. slot_score data (st_schedule st) (t_teacher task) b
                                  \<le> slot_score data (st_schedule st) (t_teacher task) a) av
           \<and> (\<forall>k. filter (\<lambda>s. slot_score data (st_schedule st) (t_teacher task) s = k) av
                = filter (\<lambda>s. s \<in> set (avail data st task)
                             \<and> slot_score data (st_schedule st) (t_teacher task) s = k)
                    (slots data))))
   \<and> (place_all data (init_state data) ts = Inr st \<longrightarrow> t \<notin> set (teachers data) \<longrightarrow>
        score data st t slot = Inl KeyError)"
proof -
  have a: "place_all data (init_state data) ts = Inr st \<longrightarrow> t \<in> set (teachers data) \<longrightarrow>
      slot \<in> set (slots data) \<longrightarrow>
      (\<exists>info. slot_map data slot = Some info
         \<and> score data st t slot =
             Inr (gap_score (used_indices data (st_schedule st) t (day info)) (time_idx info))
         \<and> slot_score data (st_schedule st) t slot =
             gap_score (used_indices data (st_schedule st) t (day info)) (time_idx info))"
  proof (intro impI)
    assume h: "place_all data (init_state data) ts = Inr st" "t \<in> set (teachers data)"
      "slot \<in> set (slots data)"
    from score_reachable[OF h] obtain info where
      i: "slot_map data slot = Some info"
      "score data st t slot =
         Inr (gap_score (used_indices data (st_schedule st) t (day info)) (time_idx info))"
      by blast
    from i(1) have "slot_score data (st_schedule st) t slot =
        gap_score (used_indices data (st_schedule st) t (day info)) (time_idx info)"
      by (simp add: slot_score_def)
    with i show "\<exists>info. slot_map data slot = Some info
         \<and> score data st t slot =
             Inr (gap_score (used_indices data (st_schedule st) t (day info)) (time_idx info))
         \<and> slot_score data (st_schedule st) t slot =
             gap_score (used_indices data (st_schedule st) t (day info)) (time_idx info)"
      by blast
  qed
  note b = sort_candidates_listed[of data ts st task]
  note c = score_unlisted[of data ts st t slot]
  from a b c show ?thesis by blast
qed

theorem slot_scoring_witness:
  "place_all four_times (init_state four_times) [four_times_task] = Inr four_times_state
   \<and> ''T'' \<in> set (teachers four_times) \<and> ''Mon 10'' \<in> set (slots four_times)
   \<and> slot_map four_times ''Mon 10'' = Some \<lparr>day = ''Mon'', time_idx = 1\<rparr>
   \<and> used_indices four_times (st_schedule four_times_state) ''T'' ''Mon'' = {0}
   \<and> score four_times four_times_state ''T'' ''Mon 10'' = Inr (gap_score {0} 1)
   \<and> gap_score {} 0 = 10 \<and> gap_score {0} 1 = 100 \<and> gap_score {0} 2 = - 50 \<and> gap_score {0} 3 = 0
   \<and> sort_reverse_by (score four_times four_times_state (t_teacher four_times_task))
        (avail four_times four_times_state four_times_task)
      = Inr [''Mon 10'', ''Tue 9'', ''Tue 10'', ''Tue 11'', ''Tue 12'', ''Mon 12'', ''Mon 11'']
   \<and> sorted_wrt (\<lambda>a b. slot_score four_times (st_schedule four_times_state) (t_teacher four_times_task) b
                        \<le> slot_score four_times (st_schedule four_times_state) (t_teacher four_times_task) a)
        [''Mon 10'', ''Tue 9'', ''Tue 10'', ''Tue 11'', ''Tue 12'', ''Mon 12'', ''Mon 11'']
   \<and> place_all unknown_teacher (init_state unknown_teacher) [] = Inr (init_state unknown_teacher)
   \<and> t_teacher unknown_task \<notin> set (teachers unknown_teacher)
   \<and> score unknown_teacher (init_state unknown_teacher) (t_teacher unknown_task) ''Mon 9''
        = Inl KeyError"
proof -
  note w = slot_scoring[of four_times "[four_times_task]" four_times_state "''T''" "''Mon 10''"
      four_times_task]
  from w four_times_placed four_times_facts(1,2)
  have "\<exists>info. slot_map four_times ''Mon 10'' = Some info
         \<and> score four_times four_times_state ''T'' ''Mon 10'' =
             Inr (gap_score (used_indices four_times (st_schedule four_times_state) ''T'' (day info))
                    (time_idx info))"
    by blast
  with four_times_facts(3,4)
  have a: "score four_times four_times_state ''T'' ''Mon 10'' = Inr (gap_score {0} 1)" by auto
  from w four_times_placed four_times_listed
  have "\<exists>av. sort_reverse_by (score four_times four_times_state (t_teacher four_times_task))
              (avail four_times four_times_state four_times_task) = Inr av
           \<and> sorted_wrt (\<lambda>a b. slot_score four_times (st_schedule four_times_state) (t_teacher four_times_task) b
                        \<le> slot_score four_times (st_schedule four_times_state) (t_teacher four_times_task) a) av"
    by blast
  with four_times_sorted
  have b: "sorted_wrt (\<lambda>a b. slot_score four_times (st_schedule four_times_state) (t_teacher four_times_task) b
                        \<le> slot_score four_times (st_schedule four_times_state) (t_teacher four_times_task) a)
        [''Mon 10'', ''Tue 9'', ''Tue 10'', ''Tue 11'', ''Tue 12'', ''Mon 12'', ''Mon 11'']"
    by auto
  have p: "place_all unknown_teacher (init_state unknown_teacher) [] = Inr (init_state unknown_teacher)"
    by simp
  from slot_scoring[of unknown_teacher "[]" "init_state unknown_teacher" "t_teacher unknown_task"
      "''Mon 9''"] p unknown_teacher_absent
  have c: "score unknown_teacher (init_state unknown_teacher) (t_teacher unknown_task) ''Mon 9''
        = Inl KeyError"
    by blast
  from four_times_placed four_times_facts a gap_score_values four_times_sorted b p
    unknown_teacher_absent c
  show ?thesis by (intro conjI)
qed

theorem slot_scoring_counterexample:
  "avail unknown_teacher (init_state unknown_teacher) unknown_task = [''Mon 9'']
   \<and> slot_map unknown_teacher ''Mon 9'' = Some \<lparr>day = ''Mon'', time_idx = 0\<rparr>
   \<and> used_indices unknown_teacher (st_schedule (init_state unknown_teacher))
        (t_teacher unknown_task) ''Mon'' = {}
   \<and> gap_score {} 0 = 10
   \<and> score unknown_teacher (init_state unknown_teacher) (t_teacher unknown_task) ''Mon 9''
        = Inl KeyError"
  using unknown_teacher_avail unknown_teacher_score gap_score_values(1) by (intro conjI)




text \<open>
  C9 (conservation). When the solver returns on a request with a slot, the number of
  entries plus the number of diagnostics is the number of expanded tasks. One task adds
  either one entry, in one of its candidate slots, or one diagnostic, whose reason is
  "no common free time" when the task had no candidate slot and the capacity reason
  otherwise; the loop goes on with the next task in both cases.
\<close>

theorem conservation:
  "(generate_schedule data = Inr r \<longrightarrow> slots data \<noteq> [] \<longrightarrow>
      length (schedule r) + length (errors r) = length (build_tasks data))
   \<and> (place_task data st task = Inr st' \<longrightarrow>
        (st_errors st' = st_errors st
          \<and> (\<exists>e. st_schedule st' = st_schedule st @ [e]
                \<and> e_slot e \<in> set (avail data st task)
                \<and> e_teacher e = t_teacher task \<and> e_groups e = t_groups task
                \<and> e_subject e = t_subject task \<and> e_type e = t_type task))
       \<or> (st_schedule st' = st_schedule st
          \<and> st_errors st' = st_errors st @
                [\<lparr>m_subject = t_subject task, m_type = t_type task,
                  m_teacher = t_teacher task,
                  m_reason = (if avail data st task = [] then NoCommonFreeTime
                              else NoRoomOfCapacity)\<rparr>]))"
  using generate_schedule_count[of data r] place_task_outcome[of data st task st'] by blast

theorem conservation_witness:
  "generate_schedule three_tasks = Inr three_tasks_response
   \<and> slots three_tasks \<noteq> []
   \<and> length (schedule three_tasks_response) + length (errors three_tasks_response) = 3
   \<and> length (build_tasks three_tasks) = 3
   \<and> place_task three_tasks (init_state three_tasks) lecture_task =
        Inr ((init_state three_tasks)\<lparr>st_errors :=
            [\<lparr>m_subject = ''L'', m_type = ''lecture'', m_teacher = ''T'',
              m_reason = NoRoomOfCapacity\<rparr>]\<rparr>)
   \<and> avail three_tasks (init_state three_tasks) lecture_task \<noteq> []"
proof -
  have s: "slots three_tasks \<noteq> []" by (simp add: three_tasks_slots)
  from conservation[of three_tasks three_tasks_response "init_state three_tasks" lecture_task
      "(init_state three_tasks)\<lparr>st_errors :=
            [\<lparr>m_subject = ''L'', m_type = ''lecture'', m_teacher = ''T'',
              m_reason = NoRoomOfCapacity\<rparr>]\<rparr>"]
    three_tasks_run s three_tasks_place
  have "length (schedule three_tasks_response) + length (errors three_tasks_response)
      = length (build_tasks three_tasks)" by blast
  with three_tasks_run s three_tasks_place three_tasks_build three_tasks_avail
  show ?thesis by simp
qed

text \<open>
  C10 (the teachers of the tasks), as amended. When the teacher of every expanded task is
  in the list of teachers, the solver returns a response, and an exception it raises is a
  \<^verbatim>\<open>KeyError\<close> for a task whose teacher is not listed. In a state the loop reaches, a
  task whose teacher is not listed raises in the scoring step when it has a candidate slot,
  and is reported as unplaced, without an exception, when it has none; the slot map and the
  days of a listed teacher never raise. Some request with a slot raises. The claim as
  stated says that the solver returns only when every teacher is listed: the request
  \<open>busy_unknown_teacher\<close> returns although its only task has an unlisted teacher.
\<close>

theorem teachers_precondition:
  "((\<forall>t\<in>set (build_tasks data). t_teacher t \<in> set (teachers data)) \<longrightarrow>
       (\<exists>r. generate_schedule data = Inr r))
   \<and> (generate_schedule data = Inl err \<longrightarrow>
         err = KeyError \<and> (\<exists>t\<in>set (build_tasks data). t_teacher t \<notin> set (teachers data)))
   \<and> (place_all data (init_state data) ts = Inr st \<longrightarrow>
         (t_teacher task \<notin> set (teachers data) \<longrightarrow>
            (avail data st task \<noteq> [] \<longrightarrow>
               sort_reverse_by (score data st (t_teacher task)) (avail data st task) = Inl KeyError
               \<and> place_task data st task = Inl KeyError)
            \<and> (avail data st task = [] \<longrightarrow>
               place_task data st task = Inr (st\<lparr>st_errors := st_errors st @
                  [\<lparr>m_subject = t_subject task, m_type = t_type task,
                    m_teacher = t_teacher task, m_reason = NoCommonFreeTime\<rparr>]\<rparr>)))
         \<and> (teacher_daily st t = Some daily \<longrightarrow> slot \<in> set (slots data) \<longrightarrow>
              (\<exists>info exist. slot_map data slot = Some info \<and> daily (day info) = Some exist)))
   \<and> (\<exists>d. slots d \<noteq> []
          \<and> (\<exists>a\<in>set (assignments d). a_teacher a \<notin> set (teachers d))
          \<and> generate_schedule d = Inl KeyError)"
proof -
  have a: "(\<forall>t\<in>set (build_tasks data). t_teacher t \<in> set (teachers data)) \<longrightarrow>
       (\<exists>r. generate_schedule data = Inr r)"
    using generate_schedule_known by blast
  have b: "generate_schedule data = Inl err \<longrightarrow>
         err = KeyError \<and> (\<exists>t\<in>set (build_tasks data). t_teacher t \<notin> set (teachers data))"
  proof
    assume e: "generate_schedule data = Inl err"
    have "\<exists>t\<in>set (build_tasks data). t_teacher t \<notin> set (teachers data)"
    proof (rule ccontr)
      assume "\<not> (\<exists>t\<in>set (build_tasks data). t_teacher t \<notin> set (teachers data))"
      then have "\<forall>t\<in>set (build_tasks data). t_teacher t \<in> set (teachers data)" by blast
      from generate_schedule_known[OF this] e show False by simp
    qed
    moreover have "err = KeyError" by (cases err) simp
    ultimately show "err = KeyError
        \<and> (\<exists>t\<in>set (build_tasks data). t_teacher t \<notin> set (teachers data))" by simp
  qed
  have c: "place_all data (init_state data) ts = Inr st \<longrightarrow>
         (t_teacher task \<notin> set (teachers data) \<longrightarrow>
            (avail data st task \<noteq> [] \<longrightarrow>
               sort_reverse_by (score data st (t_teacher task)) (avail data st task) = Inl KeyError
               \<and> place_task data st task = Inl KeyError)
            \<and> (avail data st task = [] \<longrightarrow>
               place_task data st task = Inr (st\<lparr>st_errors := st_errors st @
                  [\<lparr>m_subject = t_subject task, m_type = t_type task,
                    m_teacher = t_teacher task, m_reason = NoCommonFreeTime\<rparr>]\<rparr>)))
         \<and> (teacher_daily st t = Some daily \<longrightarrow> slot \<in> set (slots data) \<longrightarrow>
              (\<exists>info exist. slot_map data slot = Some info \<and> daily (day info) = Some exist))"
  proof
    assume p: "place_all data (init_state data) ts = Inr st"
    note inv = inv_td_place_all[OF p]
    have c1: "t_teacher task \<notin> set (teachers data) \<longrightarrow>
            (avail data st task \<noteq> [] \<longrightarrow>
               sort_reverse_by (score data st (t_teacher task)) (avail data st task) = Inl KeyError
               \<and> place_task data st task = Inl KeyError)
            \<and> (avail data st task = [] \<longrightarrow>
               place_task data st task = Inr (st\<lparr>st_errors := st_errors st @
                  [\<lparr>m_subject = t_subject task, m_type = t_type task,
                    m_teacher = t_teacher task, m_reason = NoCommonFreeTime\<rparr>]\<rparr>))"
    proof
      assume "t_teacher task \<notin> set (teachers data)"
      with inv_td_None[OF inv] have n: "teacher_daily st (t_teacher task) = None" by simp
      from place_task_unknown[OF n]
      show "(avail data st task \<noteq> [] \<longrightarrow>
               sort_reverse_by (score data st (t_teacher task)) (avail data st task) = Inl KeyError
               \<and> place_task data st task = Inl KeyError)
            \<and> (avail data st task = [] \<longrightarrow>
               place_task data st task = Inr (st\<lparr>st_errors := st_errors st @
                  [\<lparr>m_subject = t_subject task, m_type = t_type task,
                    m_teacher = t_teacher task, m_reason = NoCommonFreeTime\<rparr>]\<rparr>))"
        by (rule conjI)
    qed
    have c2: "teacher_daily st t = Some daily \<longrightarrow> slot \<in> set (slots data) \<longrightarrow>
              (\<exists>info exist. slot_map data slot = Some info \<and> daily (day info) = Some exist)"
    proof (intro impI)
      assume d: "teacher_daily st t = Some daily" and s: "slot \<in> set (slots data)"
      from slot_map_defined[OF s] obtain info where
        info: "slot_map data slot = Some info" "day info \<in> set (days data)" by blast
      from inv_td_None[OF inv, of t] d have "t \<in> set (teachers data)" by simp
      from inv_td_lookup[OF inv this info(2)] d
      obtain exist where "daily (day info) = Some exist" by auto
      with info show "\<exists>info exist. slot_map data slot = Some info \<and> daily (day info) = Some exist"
        by blast
    qed
    from c1 c2 show "(t_teacher task \<notin> set (teachers data) \<longrightarrow>
            (avail data st task \<noteq> [] \<longrightarrow>
               sort_reverse_by (score data st (t_teacher task)) (avail data st task) = Inl KeyError
               \<and> place_task data st task = Inl KeyError)
            \<and> (avail data st task = [] \<longrightarrow>
               place_task data st task = Inr (st\<lparr>st_errors := st_errors st @
                  [\<lparr>m_subject = t_subject task, m_type = t_type task,
                    m_teacher = t_teacher task, m_reason = NoCommonFreeTime\<rparr>]\<rparr>)))
         \<and> (teacher_daily st t = Some daily \<longrightarrow> slot \<in> set (slots data) \<longrightarrow>
              (\<exists>info exist. slot_map data slot = Some info \<and> daily (day info) = Some exist))"
      by (rule conjI)
  qed
  have d: "\<exists>d. slots d \<noteq> []
          \<and> (\<exists>a\<in>set (assignments d). a_teacher a \<notin> set (teachers d))
          \<and> generate_schedule d = Inl KeyError"
    using unknown_teacher_slots unknown_teacher_assignment unknown_teacher_run
    by (intro exI[of _ unknown_teacher]) simp
  from a b c d show ?thesis by (intro conjI)
qed

theorem teachers_precondition_witness:
  "generate_schedule three_tasks = Inr three_tasks_response
   \<and> generate_schedule unknown_teacher = Inl KeyError
   \<and> place_all unknown_teacher (init_state unknown_teacher) [] = Inr (init_state unknown_teacher)
   \<and> t_teacher unknown_task \<notin> set (teachers unknown_teacher)
   \<and> avail unknown_teacher (init_state unknown_teacher) unknown_task \<noteq> []
   \<and> place_task unknown_teacher (init_state unknown_teacher) unknown_task = Inl KeyError
   \<and> avail busy_unknown_teacher (init_state busy_unknown_teacher) unknown_task = []
   \<and> place_task busy_unknown_teacher (init_state busy_unknown_teacher) unknown_task =
        Inr ((init_state busy_unknown_teacher)\<lparr>st_errors :=
              st_errors (init_state busy_unknown_teacher) @
              [\<lparr>m_subject = t_subject unknown_task, m_type = t_type unknown_task,
                m_teacher = t_teacher unknown_task, m_reason = NoCommonFreeTime\<rparr>]\<rparr>)
   \<and> (\<exists>t\<in>set (build_tasks unknown_teacher). t_teacher t \<notin> set (teachers unknown_teacher))"
proof -
  have p1: "place_all unknown_teacher (init_state unknown_teacher) [] = Inr (init_state unknown_teacher)"
    by simp
  have p2: "place_all busy_unknown_teacher (init_state busy_unknown_teacher) []
      = Inr (init_state busy_unknown_teacher)"
    by simp
  have a1: "avail unknown_teacher (init_state unknown_teacher) unknown_task \<noteq> []"
    by (simp add: unknown_teacher_avail)
  from teachers_precondition[where data = unknown_teacher and ts = "[]"
      and st = "init_state unknown_teacher" and task = unknown_task] p1 unknown_teacher_absent a1
  have k: "place_task unknown_teacher (init_state unknown_teacher) unknown_task = Inl KeyError"
    by blast
  from teachers_precondition[where data = busy_unknown_teacher and ts = "[]"
      and st = "init_state busy_unknown_teacher" and task = unknown_task]
    p2 busy_unknown_absent busy_unknown_avail
  have r: "place_task busy_unknown_teacher (init_state busy_unknown_teacher) unknown_task =
        Inr ((init_state busy_unknown_teacher)\<lparr>st_errors :=
              st_errors (init_state busy_unknown_teacher) @
              [\<lparr>m_subject = t_subject unknown_task, m_type = t_type unknown_task,
                m_teacher = t_teacher unknown_task, m_reason = NoCommonFreeTime\<rparr>]\<rparr>)"
    by blast
  from teachers_precondition[where data = unknown_teacher and err = KeyError] unknown_teacher_run
  have e: "\<exists>t\<in>set (build_tasks unknown_teacher). t_teacher t \<notin> set (teachers unknown_teacher)"
    by blast
  from teachers_precondition[where data = three_tasks] three_tasks_teachers
  have "\<exists>r. generate_schedule three_tasks = Inr r" by blast
  with three_tasks_run unknown_teacher_run p1 unknown_teacher_absent a1 k busy_unknown_avail r e
  show ?thesis by (intro conjI)
qed

theorem teachers_counterexample:
  "slots busy_unknown_teacher \<noteq> []
   \<and> build_tasks busy_unknown_teacher = [unknown_task]
   \<and> t_teacher unknown_task \<notin> set (teachers busy_unknown_teacher)
   \<and> generate_schedule busy_unknown_teacher = Inr busy_unknown_response"
  using busy_unknown_absent
  by (simp add: busy_unknown_slots busy_unknown_tasks busy_unknown_run unknown_task_def)

text \<open>
  X1 (availability respected, section 8 of the specification). No entry of a returned
  schedule has a slot that is in the busy list of its teacher.
\<close>

theorem availability_respected:
  assumes "generate_schedule data = Inr r" and "e \<in> set (schedule r)"
    and "teacher_busy data (e_teacher e) = Some busy"
  shows "e_slot e \<notin> set busy"
  using assms(1)
proof (cases rule: generate_schedule_cases)
  case 1
  with assms(2) show ?thesis by simp
next
  case (2 st)
  from assms(2) 2(3) have "e \<in> set (st_schedule st)" by simp
  with inv_busy_place_all[OF 2(2)] assms(3) show ?thesis by (simp add: inv_busy_def)
qed

theorem availability_respected_witness:
  "generate_schedule busy_teacher = Inr busy_teacher_response
   \<and> schedule busy_teacher_response ! 0 \<in> set (schedule busy_teacher_response)
   \<and> teacher_busy busy_teacher (e_teacher (schedule busy_teacher_response ! 0)) = Some [''Mon 9'']
   \<and> e_slot (schedule busy_teacher_response ! 0) \<notin> set [''Mon 9'']"
proof -
  have m: "schedule busy_teacher_response ! 0 \<in> set (schedule busy_teacher_response)"
    by (simp add: busy_teacher_response_def)
  have b: "teacher_busy busy_teacher (e_teacher (schedule busy_teacher_response ! 0)) = Some [''Mon 9'']"
    by (simp add: busy_teacher_response_def busy_teacher_def)
  from availability_respected[OF busy_teacher_run m b] busy_teacher_run m b
  show ?thesis by (intro conjI)
qed

end
